theory Spec2Isabelle
  imports Complex_Main "HOL-Library.Sublist"
begin

section \<open>Strings and the small regular expressions of the constraint extractor\<close>

text \<open>
  A JavaScript string is modelled as a \<^typ>\<open>string\<close> whose characters are the code
  units below 256 (Latin-1), which is enough for every pattern of
  \<^verbatim>\<open>web/layout6-ai-chat.js\<close>: the only character beyond ASCII that the
  source mentions is the pound sign, code unit 0xA3.
\<close>

definition pound :: char where
  "pound = CHR 0xA3"

definition is_digit :: "char \<Rightarrow> bool" where
  "is_digit c = (c \<in> set ''0123456789'')"

text \<open>The class \<^verbatim>\<open>\s\<close>: tab, line feed, vertical tab, form feed, carriage return, space, no-break space.\<close>

definition is_space :: "char \<Rightarrow> bool" where
  "is_space c = (c \<in> set [CHR 0x09, CHR 0x0A, CHR 0x0B, CHR 0x0C, CHR 0x0D, CHR 0x20, CHR 0xA0])"

text \<open>The class \<^verbatim>\<open>\w\<close>.\<close>

definition is_word :: "char \<Rightarrow> bool" where
  "is_word c = (c \<in> set ''abcdefghijklmnopqrstuvwxyzABCDEFGHIJKLMNOPQRSTUVWXYZ0123456789_'')"

text \<open>\<^verbatim>\<open>String.prototype.toLowerCase\<close> on Latin-1 code units.\<close>

definition lower_char :: "char \<Rightarrow> char" where
  "lower_char c =
     (let n = (of_char c :: nat)
      in if (65 \<le> n \<and> n \<le> 90) \<or> (192 \<le> n \<and> n \<le> 222 \<and> n \<noteq> 215)
         then char_of (n + 32) else c)"

definition toLowerCase :: "string \<Rightarrow> string" where
  "toLowerCase s = map lower_char s"

text \<open>\<^verbatim>\<open>s.includes(k)\<close>: \<open>k\<close> occurs in \<open>s\<close> as a contiguous substring.\<close>

fun string_includes :: "string \<Rightarrow> string \<Rightarrow> bool" where
  "string_includes [] k = (k = [])"
| "string_includes (c # cs) k = (prefix k (c # cs) \<or> string_includes cs k)"

text \<open>\<^verbatim>\<open>s.endsWith(k)\<close>.\<close>

definition endsWith :: "string \<Rightarrow> string \<Rightarrow> bool" where
  "endsWith s k = suffix k s"

text \<open>\<^verbatim>\<open>s.slice(0, -n)\<close>: the string without its last \<open>n\<close> code units.\<close>

definition slice_end :: "string \<Rightarrow> nat \<Rightarrow> string" where
  "slice_end s n = take (length s - n) s"

text \<open>\<^verbatim>\<open>s.replace(/y$/, 'ies')\<close>.\<close>

definition replace_y_ies :: "string \<Rightarrow> string" where
  "replace_y_ies s = (if endsWith s ''y'' then slice_end s 1 @ ''ies'' else s)"

text \<open>\<^verbatim>\<open>xs.join(' ')\<close> on an array of strings.\<close>

fun join_sp :: "string list \<Rightarrow> string" where
  "join_sp [] = []"
| "join_sp [x] = x"
| "join_sp (x # y # ys) = x @ '' '' @ join_sp (y # ys)"

text \<open>
  \<^verbatim>\<open>[...new Set(xs)]\<close>: duplicates removed, the first occurrence of each element kept,
  in insertion order.
\<close>

definition uniq :: "'a list \<Rightarrow> 'a list" where
  "uniq xs = foldl (\<lambda>acc x. if x \<in> set acc then acc else acc @ [x]) [] xs"

text \<open>\<^verbatim>\<open>parseInt\<close> and \<^verbatim>\<open>parseFloat\<close> on a capture of \<^verbatim>\<open>(\d+)\<close>.\<close>

definition digit_val :: "char \<Rightarrow> nat" where
  "digit_val c = (of_char c :: nat) - 48"

definition parse_digits :: "string \<Rightarrow> nat" where
  "parse_digits ds = foldl (\<lambda>a c. 10 * a + digit_val c) 0 ds"

text \<open>
  The pieces of the source's regular expressions. Each takes the rest of the input and
  returns what is left after the piece, or \<open>None\<close> when the piece does not match.
  The patterns carry the flag \<^verbatim>\<open>i\<close>, so a literal is compared after lower-casing.
  In every pattern of the source a greedy \<^verbatim>\<open>\s*\<close> or \<^verbatim>\<open>(\d+)\<close> is followed by a
  character outside its class, so the greedy match is the only one and no backtracking
  is needed.
\<close>

definition lit :: "string \<Rightarrow> string \<Rightarrow> string option" where
  "lit l s = (if toLowerCase (take (length l) s) = l then Some (drop (length l) s) else None)"

definition ws_star :: "string \<Rightarrow> string" where
  "ws_star s = dropWhile is_space s"

text \<open>\<^verbatim>\<open>(\d+)\<close>: the captured digits and the rest.\<close>

definition digits1 :: "string \<Rightarrow> (string \<times> string) option" where
  "digits1 s = (let d = takeWhile is_digit s in if d = [] then None else Some (d, dropWhile is_digit s))"

text \<open>\<^verbatim>\<open>[\s-]\<close>: one white-space character or a hyphen.\<close>

definition sep1 :: "string \<Rightarrow> string option" where
  "sep1 s = (case s of [] \<Rightarrow> None | c # cs \<Rightarrow> if is_space c \<or> c = CHR ''-'' then Some cs else None)"

text \<open>\<^verbatim>\<open>\b\<close> after a word character: the input ends or goes on with a non-word character.\<close>

definition word_end :: "string \<Rightarrow> bool" where
  "word_end s = (case s of [] \<Rightarrow> True | c # _ \<Rightarrow> \<not> is_word c)"

text \<open>\<^verbatim>\<open>query.match(pattern)\<close>: the leftmost position where the pattern matches.\<close>

fun search :: "(string \<Rightarrow> 'a option) \<Rightarrow> string \<Rightarrow> 'a option" where
  "search m [] = m []"
| "search m (c # cs) = (case m (c # cs) of Some r \<Rightarrow> Some r | None \<Rightarrow> search m cs)"

text \<open>The first pattern of a list that matches, as the source's \<^verbatim>\<open>for (const pattern of patterns)\<close>.\<close>

fun first_match :: "(string \<Rightarrow> 'a option) list \<Rightarrow> string \<Rightarrow> 'a option" where
  "first_match [] q = None"
| "first_match (m # ms) q = (case search m q of Some r \<Rightarrow> Some r | None \<Rightarrow> first_match ms q)"

text \<open>\<^verbatim>\<open>/word\s*POUND(\d+)/i\<close> (POUND the pound sign), for one or two words separated by \<^verbatim>\<open>\s*\<close>.\<close>

definition rx_word_pound :: "string list \<Rightarrow> string \<Rightarrow> string option" where
  "rx_word_pound ws s =
     Option.bind (fold (\<lambda>w r. Option.bind r (\<lambda>t. map_option ws_star (lit w t))) ws (Some s))
       (\<lambda>t. Option.bind (lit [pound] t) (\<lambda>u. map_option fst (digits1 u)))"

text \<open>\<^verbatim>\<open>/(\d+)\s*pounds?\b/i\<close>.\<close>

definition rx_pounds :: "string \<Rightarrow> string option" where
  "rx_pounds s =
     Option.bind (digits1 s) (\<lambda>(d, t).
     Option.bind (lit ''pound'' (ws_star t)) (\<lambda>u.
       if (case lit ''s'' u of Some v \<Rightarrow> word_end v | None \<Rightarrow> False) \<or> word_end u
       then Some d else None))"

section \<open>The constraint extractor\<close>

definition extractMaxPrice :: "string \<Rightarrow> nat option" where
  "extractMaxPrice query =
     map_option parse_digits
       (first_match
          [rx_word_pound [''under''],
           rx_word_pound [''less'', ''than''],
           rx_word_pound [''cheaper'', ''than''],
           rx_word_pound [''below''],
           rx_word_pound [''max''],
           rx_word_pound [''maximum''],
           rx_pounds] query)"

text \<open>\<^verbatim>\<open>/(\d+)[\s-]year[\s-]old/i\<close>.\<close>

definition rx_year_old :: "string \<Rightarrow> string option" where
  "rx_year_old s =
     Option.bind (digits1 s) (\<lambda>(d, t).
     Option.bind (sep1 t) (\<lambda>u.
     Option.bind (lit ''year'' u) (\<lambda>v.
     Option.bind (sep1 v) (\<lambda>w.
     map_option (\<lambda>_. d) (lit ''old'' w)))))"

text \<open>\<^verbatim>\<open>/age\s*(\d+)/i\<close> and \<^verbatim>\<open>/for\s*(\d+)/i\<close>.\<close>

definition rx_word_num :: "string \<Rightarrow> string \<Rightarrow> string option" where
  "rx_word_num w s = Option.bind (lit w s) (\<lambda>t. map_option fst (digits1 (ws_star t)))"

definition extractAgeRange :: "string \<Rightarrow> (nat \<times> nat) option" where
  "extractAgeRange query =
     (case first_match [rx_year_old, rx_word_num ''age'', rx_word_num ''for''] query of
        Some d \<Rightarrow> (let age = parse_digits d in Some (nat (max 0 (int age - 1)), age + 1))
      | None \<Rightarrow>
          if string_includes query ''toddler'' then Some (2, 4)
          else if string_includes query ''preschool'' then Some (3, 5)
          else if string_includes query ''baby'' \<or> string_includes query ''babies'' then Some (0, 2)
          else None)"

text \<open>
  \<^verbatim>\<open>/under\s*(\d+)\s*min/i\<close> and its siblings: some words, each followed by \<^verbatim>\<open>\s*\<close>,
  the number, \<^verbatim>\<open>\s*\<close>, and the unit.
\<close>

definition rx_words_num_unit :: "string list \<Rightarrow> string \<Rightarrow> string \<Rightarrow> string option" where
  "rx_words_num_unit ws unit s =
     Option.bind (fold (\<lambda>w r. Option.bind r (\<lambda>t. map_option ws_star (lit w t))) ws (Some s))
       (\<lambda>t. Option.bind (digits1 t) (\<lambda>(d, u). map_option (\<lambda>_. d) (lit unit (ws_star u))))"

text \<open>\<^verbatim>\<open>/(\d+)\s*min\s*or\s*less/i\<close>.\<close>

definition rx_min_or_less :: "string \<Rightarrow> string option" where
  "rx_min_or_less s =
     Option.bind (digits1 s) (\<lambda>(d, t).
     Option.bind (lit ''min'' (ws_star t)) (\<lambda>u.
     Option.bind (lit ''or'' (ws_star u)) (\<lambda>v.
     map_option (\<lambda>_. d) (lit ''less'' (ws_star v)))))"

definition extractMaxRuntime :: "string \<Rightarrow> nat option" where
  "extractMaxRuntime query =
     (case first_match
             [rx_words_num_unit [''under''] ''min'',
              rx_words_num_unit [''less'', ''than''] ''min'',
              rx_words_num_unit [''shorter'', ''than''] ''min'',
              rx_min_or_less] query of
        Some d \<Rightarrow> Some (parse_digits d * 60)
      | None \<Rightarrow>
          (case search (rx_words_num_unit [''under''] ''hour'') query of
             Some d \<Rightarrow> Some (parse_digits d * 3600)
           | None \<Rightarrow>
               if string_includes query ''quick'' \<or> string_includes query ''short'' then Some (30 * 60)
               else None))"

definition typeMap :: "(string \<times> string) list" where
  "typeMap =
     [(''story'', ''Stories''),
      (''stories'', ''Stories''),
      (''music'', ''Music''),
      (''song'', ''Music''),
      (''songs'', ''Music''),
      (''education'', ''Learning & Education''),
      (''educational'', ''Learning & Education''),
      (''learning'', ''Learning & Education''),
      (''adventure'', ''Action & Adventure''),
      (''bedtime'', ''Stories''),
      (''sleep'', ''Stories''),
      (''lullaby'', ''Music'')]"

definition extractContentTypes :: "string \<Rightarrow> string list" where
  "extractContentTypes query =
     foldl (\<lambda>types (keyword, type).
              if string_includes query keyword \<and> type \<notin> set types then types @ [type] else types)
       [] typeMap"

definition stopWords :: "string list" where
  "stopWords =
     [''the'', ''a'', ''an'', ''and'', ''or'', ''but'', ''in'', ''on'', ''at'', ''to'', ''for'',
      ''of'', ''with'', ''by'', ''from'', ''as'', ''is'', ''was'', ''are'', ''be'', ''been'',
      ''being'', ''have'', ''has'', ''had'', ''do'', ''does'', ''did'', ''will'', ''would'',
      ''could'', ''should'', ''may'', ''might'', ''must'', ''can'', ''find'', ''show'', ''get'',
      ''give'', ''me'', ''my'', ''i'', ''you'', ''your'', ''under'', ''over'', ''less'', ''more'',
      ''than'', ''about'']"

text \<open>\<^verbatim>\<open>s.split(/\s+/)\<close>: the pieces between maximal runs of white space.\<close>

fun split_ws :: "string \<Rightarrow> string \<Rightarrow> string list" where
  "split_ws acc [] = [acc]"
| "split_ws acc (c # cs) =
     (if is_space c
      then (case cs of
              [] \<Rightarrow> [acc, []]
            | d # _ \<Rightarrow> if is_space d then split_ws acc cs else acc # split_ws [] cs)
      else split_ws (acc @ [c]) cs)"

definition extractKeywords :: "string \<Rightarrow> string list" where
  "extractKeywords query =
     uniq (filter (\<lambda>word. length word > 2 \<and> word \<notin> set stopWords)
             (split_ws []
                (map (\<lambda>c. if is_word c \<or> is_space c then c else CHR '' '') (toLowerCase query))))"

section \<open>The semantic vocabulary\<close>

text \<open>
  The three tables of \<^verbatim>\<open>expandKeywordsSemantically\<close>, as association lists in the
  order of the object literals (the order \<^verbatim>\<open>Object.entries\<close> walks them in).
\<close>

definition level1Map :: "(string \<times> string list) list" where
  "level1Map =
     [(''dinosaur'', [''prehistoric'', ''reptile'', ''jurassic'', ''fossil'', ''tyrannosaurus'', ''t-rex'', ''triceratops'']),
      (''space'', [''astronomy'', ''planet'', ''rocket'', ''astronaut'', ''galaxy'', ''star'', ''moon'', ''solar'']),
      (''princess'', [''fairy tale'', ''royal'', ''castle'', ''crown'', ''queen'', ''prince'']),
      (''pirate'', [''treasure'', ''ship'', ''sea'', ''adventure'', ''ocean'', ''captain'', ''sailor'']),
      (''animal'', [''creature'', ''wildlife'', ''nature'', ''jungle'', ''safari'']),
      (''music'', [''song'', ''melody'', ''rhythm'', ''instrument'', ''singing'']),
      (''story'', [''tale'', ''narrative'', ''adventure'', ''journey'']),
      (''science'', [''experiment'', ''discovery'', ''learning'', ''stem'']),
      (''magic'', [''wizard'', ''spell'', ''fantasy'', ''enchanted'', ''mystical'']),
      (''witch'', [''magic'', ''spell'', ''broom'', ''cauldron'', ''potion'', ''halloween'']),
      (''dragon'', [''fantasy'', ''mythical'', ''fire'', ''knight'', ''castle'']),
      (''unicorn'', [''fantasy'', ''magical'', ''rainbow'', ''fairy tale'']),
      (''monster'', [''creature'', ''scary'', ''beast'', ''halloween'']),
      (''superhero'', [''hero'', ''powers'', ''cape'', ''adventure'', ''brave'']),
      (''fairy'', [''fantasy'', ''magical'', ''wings'', ''fairy tale'']),
      (''bedtime'', [''sleep'', ''night'', ''calm'', ''lullaby'', ''soothing'']),
      (''broom'', [''witch'', ''magic'', ''halloween'', ''spell'']),
      (''broomstick'', [''witch'', ''magic'', ''halloween'', ''spell'']),
      (''wand'', [''magic'', ''wizard'', ''witch'', ''spell'', ''fantasy'']),
      (''spell'', [''magic'', ''wizard'', ''witch'', ''fantasy'']),
      (''potion'', [''magic'', ''wizard'', ''witch'', ''spell'']),
      (''cauldron'', [''witch'', ''magic'', ''potion'', ''halloween'']),
      (''trombone'', [''music'', ''instrument'', ''brass'', ''jazz'', ''orchestra'']),
      (''trumpet'', [''music'', ''instrument'', ''brass'', ''jazz'', ''orchestra'']),
      (''violin'', [''music'', ''instrument'', ''strings'', ''classical'', ''orchestra'']),
      (''piano'', [''music'', ''instrument'', ''classical'', ''keys'']),
      (''guitar'', [''music'', ''instrument'', ''strings'', ''rock'']),
      (''drum'', [''music'', ''instrument'', ''percussion'', ''rhythm'']),
      (''flute'', [''music'', ''instrument'', ''wind'', ''classical'']),
      (''saxophone'', [''music'', ''instrument'', ''jazz'', ''wind'']),
      (''banjo'', [''music'', ''instrument'', ''folk'', ''strings'']),
      (''bus'', [''vehicle'', ''transport'', ''travel'', ''wheel'', ''music'', ''song'']),
      (''busses'', [''vehicle'', ''transport'', ''travel'', ''wheel'', ''music'', ''song'']),
      (''buses'', [''vehicle'', ''transport'', ''travel'', ''wheel'', ''music'', ''song'']),
      (''car'', [''vehicle'', ''transport'', ''travel'', ''wheel'']),
      (''train'', [''vehicle'', ''transport'', ''travel'', ''railway'']),
      (''truck'', [''vehicle'', ''transport'', ''travel'', ''wheel''])]"

definition level2Map :: "(string \<times> string list) list" where
  "level2Map =
     [(''badger'', [''woodland'', ''forest'', ''animal'', ''creature'', ''nature'']),
      (''fox'', [''woodland'', ''forest'', ''animal'', ''creature'', ''nature'']),
      (''hedgehog'', [''woodland'', ''forest'', ''animal'', ''creature'', ''nature'']),
      (''rabbit'', [''woodland'', ''forest'', ''animal'', ''creature'', ''nature'']),
      (''bear'', [''woodland'', ''forest'', ''animal'', ''creature'', ''nature'', ''wild'']),
      (''lion'', [''safari'', ''jungle'', ''animal'', ''wild'', ''africa'']),
      (''elephant'', [''safari'', ''jungle'', ''animal'', ''wild'', ''africa'']),
      (''giraffe'', [''safari'', ''jungle'', ''animal'', ''wild'', ''africa'']),
      (''penguin'', [''arctic'', ''ice'', ''animal'', ''bird'', ''cold'']),
      (''shark'', [''ocean'', ''sea'', ''fish'', ''underwater'', ''marine'']),
      (''dolphin'', [''ocean'', ''sea'', ''marine'', ''underwater'', ''aquatic'']),
      (''dinosaur'', [''animal'', ''creature'', ''prehistoric'', ''adventure'']),
      (''space'', [''science'', ''discovery'', ''adventure'', ''learning'']),
      (''princess'', [''fantasy'', ''adventure'', ''story'', ''fairy tale'']),
      (''pirate'', [''adventure'', ''treasure'', ''journey'', ''story'']),
      (''witch'', [''fantasy'', ''magic'', ''story'', ''adventure'']),
      (''dragon'', [''fantasy'', ''adventure'', ''story'', ''mythical'']),
      (''superhero'', [''adventure'', ''action'', ''brave'', ''hero''])]"

definition level3Map :: "(string \<times> string list) list" where
  "level3Map =
     [(''animal'', [''nature'', ''wildlife'', ''adventure'', ''discovery'']),
      (''fantasy'', [''story'', ''adventure'', ''imagination'']),
      (''space'', [''discovery'', ''adventure'', ''learning'']),
      (''adventure'', [''story'', ''journey'', ''exploration'']),
      (''magic'', [''fantasy'', ''story'', ''imagination'']),
      (''science'', [''learning'', ''discovery'', ''education''])]"

definition expandKeywordsSemantically :: "string list \<Rightarrow> nat \<Rightarrow> string list" where
  "expandKeywordsSemantically keywords level =
     (let mapsToUse =
            (if level \<ge> 1 then [level1Map] else []) @
            (if level \<ge> 2 then [level2Map] else []) @
            (if level \<ge> 3 then [level3Map] else [])
      in uniq (keywords @
           concat (map (\<lambda>keyword.
             concat (map (\<lambda>semanticMap.
               concat (map (\<lambda>(baseWord, expansions).
                 if string_includes keyword baseWord \<or> string_includes baseWord keyword
                 then expansions else []) semanticMap)) mapsToUse)) keywords)))"

definition typeExpansions :: "(string \<times> string list) list" where
  "typeExpansions =
     [(''Stories'', [''Adventures'', ''Tales'', ''Narratives'', ''Learning & Education'']),
      (''Music'', [''Songs'', ''Lullabies'', ''Rhymes'']),
      (''Learning & Education'', [''Stories'', ''Science'', ''Discovery''])]"

definition expandContentTypes :: "string list \<Rightarrow> string list" where
  "expandContentTypes types =
     uniq (types @
       concat (map (\<lambda>type. case map_of typeExpansions type of Some ex \<Rightarrow> ex | None \<Rightarrow> []) types))"

section \<open>Data model\<close>

text \<open>
  A catalogue record as the code reads it. A field that the JSON record may lack is an
  option, \<open>None\<close> standing for \<^verbatim>\<open>undefined\<close>. The price is the number that
  \<^verbatim>\<open>parseFloat(product.price)\<close> yields (\<open>None\<close> when there is none: the comparison
  with \<^verbatim>\<open>NaN\<close> is false). \<open>tierUsed\<close> and \<open>isExpanded\<close> are the two fields that
  the tier pipeline writes on the records. The source's field \<^verbatim>\<open>id\<close> is \<open>pid\<close>
  here, and the \<^verbatim>\<open>ageRange\<close> of the filters is \<open>ageRangeF\<close>.

  The \<^verbatim>\<open>ageRange\<close> of a record is a JSON array when present. Its elements are
  numbers or \<^verbatim>\<open>null\<close> (an element \<open>None\<close>), and it may hold fewer than two
  elements: the catalogue browser of this repository guards both cases
  (\<^verbatim>\<open>ageRange.length < 2\<close>, \<^verbatim>\<open>ageRange[0] === null\<close>).
\<close>

record product =
  pid :: string
  title :: "string option"
  author :: "string option"
  blurb :: "string option"
  price :: "rat option"
  runtime :: "nat option"
  ageRange :: "nat option list option"
  contentType :: "string list option"
  availableForSale :: "bool option"
  flag :: "string option"
  tierUsed :: "nat option"
  isExpanded :: "bool option"

record filters =
  maxPrice :: "nat option"
  ageRangeF :: "(nat \<times> nat) option"
  maxRuntime :: "nat option"
  contentTypes :: "string list"
  "keywords" :: "string list"

record message =
  role :: string
  content :: string

datatype js_error = TypeError

text \<open>
  \<^verbatim>\<open>this.products\<close> is an array of objects, and every tier returns arrays of
  references to these same objects. The catalogue is the store, a reference is an index
  into it.
\<close>

type_synonym catalog = "product list"
type_synonym ref = nat

subsection \<open>JavaScript truthiness\<close>

definition truthy_num :: "nat option \<Rightarrow> bool" where
  "truthy_num v = (case v of None \<Rightarrow> False | Some n \<Rightarrow> n \<noteq> 0)"

definition truthy_price :: "rat option \<Rightarrow> bool" where
  "truthy_price v = (case v of None \<Rightarrow> False | Some r \<Rightarrow> r \<noteq> 0)"

definition truthy_str :: "string option \<Rightarrow> bool" where
  "truthy_str v = (case v of None \<Rightarrow> False | Some s \<Rightarrow> s \<noteq> [])"

definition truthy_bool :: "bool option \<Rightarrow> bool" where
  "truthy_bool v = (case v of None \<Rightarrow> False | Some b \<Rightarrow> b)"

text \<open>A field inside a template literal: \<^verbatim>\<open>undefined\<close> prints as the word.\<close>

definition template :: "string option \<Rightarrow> string" where
  "template v = (case v of None \<Rightarrow> ''undefined'' | Some s \<Rightarrow> s)"

subsection \<open>Array elements and comparisons\<close>

text \<open>
  What \<^verbatim>\<open>const [minAge, maxAge] = product.ageRange\<close> binds to a variable: a number,
  \<^verbatim>\<open>null\<close>, or \<^verbatim>\<open>undefined\<close> when the array is too short.
\<close>

datatype js_num = Num nat | Null | Undefined

definition elem :: "nat option list \<Rightarrow> nat \<Rightarrow> js_num" where
  "elem xs k =
     (if k < length xs then (case xs ! k of Some n \<Rightarrow> Num n | None \<Rightarrow> Null)
      else Undefined)"

text \<open>
  \<^verbatim>\<open>a <= n\<close> and \<^verbatim>\<open>a >= n\<close> for a number \<open>n\<close>: \<^verbatim>\<open>null\<close> is compared as 0,
  and a comparison with \<^verbatim>\<open>undefined\<close> (read as \<^verbatim>\<open>NaN\<close>) is false.
\<close>

definition num_le :: "js_num \<Rightarrow> nat \<Rightarrow> bool" where
  "num_le a n = (case a of Num m \<Rightarrow> m \<le> n | Null \<Rightarrow> (0::nat) \<le> n | Undefined \<Rightarrow> False)"

definition num_ge :: "js_num \<Rightarrow> nat \<Rightarrow> bool" where
  "num_ge a n = (case a of Num m \<Rightarrow> m \<ge> n | Null \<Rightarrow> (0::nat) \<ge> n | Undefined \<Rightarrow> False)"

section \<open>The candidate filter\<close>

definition hasFilters :: "filters \<Rightarrow> bool" where
  "hasFilters f =
     (truthy_num (maxPrice f) \<or> ageRangeF f \<noteq> None \<or> truthy_num (maxRuntime f) \<or>
      contentTypes f \<noteq> [] \<or> keywords f \<noteq> [])"

text \<open>\<^verbatim>\<open>parseFloat(product.price) > filters.maxPrice\<close>.\<close>

definition price_over :: "product \<Rightarrow> nat \<Rightarrow> bool" where
  "price_over p m = (case price p of None \<Rightarrow> False | Some r \<Rightarrow> r > of_nat m)"

text \<open>\<^verbatim>\<open>product.runtime > filters.maxRuntime\<close>.\<close>

definition runtime_over :: "product \<Rightarrow> nat \<Rightarrow> bool" where
  "runtime_over p m = (case runtime p of None \<Rightarrow> False | Some r \<Rightarrow> r > m)"

text \<open>Tier 1: \<^verbatim>\<open>if (filters.maxPrice) { if (parseFloat(product.price) > filters.maxPrice) return false }\<close>.\<close>

definition price_fails1 :: "filters \<Rightarrow> product \<Rightarrow> bool" where
  "price_fails1 f p =
     (case maxPrice f of None \<Rightarrow> False | Some m \<Rightarrow> m \<noteq> 0 \<and> price_over p m)"

definition runtime_fails1 :: "filters \<Rightarrow> product \<Rightarrow> bool" where
  "runtime_fails1 f p =
     (case maxRuntime f of None \<Rightarrow> False | Some m \<Rightarrow> m \<noteq> 0 \<and> runtime_over p m)"

text \<open>
  Tiers 2 to 5:
  \<^verbatim>\<open>filters.maxPrice && product.price && parseFloat(product.price) > filters.maxPrice\<close>.
  A price of 0 is falsy when the record holds it as a number and truthy when it holds
  the string "0"; the comparison that follows is false in both cases, the maximum being a
  natural number, so the two need not be told apart.
\<close>

definition price_fails2 :: "filters \<Rightarrow> product \<Rightarrow> bool" where
  "price_fails2 f p =
     (case maxPrice f of
        None \<Rightarrow> False
      | Some m \<Rightarrow> m \<noteq> 0 \<and> truthy_price (price p) \<and> price_over p m)"

text \<open>
  The soft checks. Each returns what the code pushes on \<^verbatim>\<open>filterChecks\<close>: nothing
  when the filter is not specified, one boolean otherwise.
\<close>

definition ageCheck :: "filters \<Rightarrow> product \<Rightarrow> bool list" where
  "ageCheck f p =
     (case ageRangeF f of
        None \<Rightarrow> []
      | Some (lo, hi) \<Rightarrow>
          (case ageRange p of
             Some ages \<Rightarrow> [num_le (elem ages 0) hi \<and> num_ge (elem ages 1) lo]
           | None \<Rightarrow> [False]))"

definition contentTypeCheck :: "string list \<Rightarrow> product \<Rightarrow> bool list" where
  "contentTypeCheck types p =
     (if types \<noteq> []
      then (case contentType p of
              Some cts \<Rightarrow>
                [list_ex (\<lambda>type.
                   list_ex (\<lambda>ct. string_includes (toLowerCase ct) (toLowerCase type)) cts) types]
            | None \<Rightarrow> [False])
      else [])"

text \<open>
  \<^verbatim>\<open>`${product.title} ${product.author} ${product.blurb || ''} ${product.contentType?.join(' ')}`.toLowerCase()\<close>
\<close>

definition searchText :: "product \<Rightarrow> string" where
  "searchText p =
     toLowerCase
       (template (title p) @ '' '' @ template (author p) @ '' '' @
        (if truthy_str (blurb p) then template (blurb p) else []) @ '' '' @
        template (map_option join_sp (contentType p)))"

text \<open>
  The fuzzy keyword match. The code has it three times with the same text: inline in
  Tier 1, inline in Tier 2, and as \<^verbatim>\<open>matchesKeyword\<close> in \<^verbatim>\<open>scoreAndSortProducts\<close>.
\<close>

definition matchesKeyword :: "string \<Rightarrow> string \<Rightarrow> bool" where
  "matchesKeyword text keyword =
     (if string_includes text keyword then True
      else if endsWith keyword ''s'' \<and> string_includes text (slice_end keyword 1) then True
      else if endsWith keyword ''s'' \<and> endsWith keyword ''es'' \<and>
              string_includes text (slice_end keyword 2) then True
      else if string_includes text (keyword @ ''s'') then True
      else if string_includes text (keyword @ ''es'') then True
      else if endsWith keyword ''ies'' \<and> string_includes text (slice_end keyword 3 @ ''y'') then True
      else if string_includes text (replace_y_ies keyword) then True
      else False)"

text \<open>Tiers 1 and 2: \<^verbatim>\<open>keywords.some(keyword => ... fuzzy match ...)\<close>.\<close>

definition keywordCheckFuzzy :: "string list \<Rightarrow> product \<Rightarrow> bool list" where
  "keywordCheckFuzzy kws p =
     (if kws \<noteq> [] then [list_ex (matchesKeyword (searchText p)) kws] else [])"

text \<open>Tiers 3 and 4: \<^verbatim>\<open>keywords.some(keyword => searchText.includes(keyword))\<close>.\<close>

definition keywordCheckExact :: "string list \<Rightarrow> product \<Rightarrow> bool list" where
  "keywordCheckExact kws p =
     (if kws \<noteq> [] then [list_ex (string_includes (searchText p)) kws] else [])"

text \<open>\<^verbatim>\<open>filterChecks.length === 0 || filterChecks.every(check => check === true)\<close>.\<close>

definition allChecks :: "bool list \<Rightarrow> bool" where
  "allChecks filterChecks = (filterChecks = [] \<or> list_all (\<lambda>check. check = True) filterChecks)"

text \<open>The callback of the Tier 1 \<^verbatim>\<open>this.products.filter\<close>.\<close>

definition tier1_pass :: "filters \<Rightarrow> product \<Rightarrow> bool" where
  "tier1_pass f p =
     (if availableForSale p = Some False then False
      else if \<not> hasFilters f then True
      else if price_fails1 f p then False
      else if runtime_fails1 f p then False
      else allChecks (ageCheck f p @ contentTypeCheck (contentTypes f) p @
                      keywordCheckFuzzy (keywords f) p))"

text \<open>
  The callback of the Tier 2 filter; \<open>ef\<close> is \<^verbatim>\<open>expandedFilters\<close>, \<open>ids\<close>
  the identifiers already selected (\<^verbatim>\<open>existingIds\<close>).
\<close>

definition tier2_pass :: "filters \<Rightarrow> filters \<Rightarrow> string list \<Rightarrow> product \<Rightarrow> bool" where
  "tier2_pass f ef ids p =
     (if pid p \<in> set ids then False
      else if \<not> truthy_bool (availableForSale p) then False
      else if price_fails2 f p then False
      else allChecks (ageCheck f p @ contentTypeCheck (contentTypes ef) p @
                      keywordCheckFuzzy (keywords ef) p))"

text \<open>The callback of the Tier 3 and of the Tier 4 filter (the two have the same text).\<close>

definition tier34_pass :: "filters \<Rightarrow> filters \<Rightarrow> string list \<Rightarrow> product \<Rightarrow> bool" where
  "tier34_pass f tf ids p =
     (if pid p \<in> set ids then False
      else if \<not> truthy_bool (availableForSale p) then False
      else if price_fails2 f p then False
      else allChecks (ageCheck f p @ contentTypeCheck (contentTypes tf) p @
                      keywordCheckExact (keywords tf) p))"

text \<open>The callback of the Tier 5 filter.\<close>

definition tier5_pass :: "filters \<Rightarrow> string list \<Rightarrow> product \<Rightarrow> bool" where
  "tier5_pass f ids p =
     (if pid p \<in> set ids then False
      else if \<not> truthy_bool (availableForSale p) then False
      else if price_fails2 f p then False
      else True)"

section \<open>The relevance scorer\<close>

text \<open>
  \<^verbatim>\<open>product.title.toLowerCase()\<close> is evaluated whenever there are keywords, and raises a
  \<^verbatim>\<open>TypeError\<close> on a record without title; the blurb is guarded by
  \<^verbatim>\<open>product.blurb &&\<close>.
\<close>

definition score :: "filters \<Rightarrow> product \<Rightarrow> js_error + nat" where
  "score f p =
     (case (if keywords f \<noteq> []
            then (case title p of
                    None \<Rightarrow> Inl TypeError
                  | Some t \<Rightarrow>
                      Inr (sum_list (map (\<lambda>keyword.
                             if matchesKeyword (toLowerCase t) keyword then 3 else 0) (keywords f))))
            else Inr 0) of
        Inl e \<Rightarrow> Inl e
      | Inr titleScore \<Rightarrow>
          Inr (titleScore +
               (if truthy_str (blurb p) \<and> keywords f \<noteq> []
                then sum_list (map (\<lambda>keyword.
                       if matchesKeyword (toLowerCase (template (blurb p))) keyword then 1 else 0)
                       (keywords f))
                else 0) +
               (if flag p = Some ''New to Yoto'' then 2 else 0) +
               (case (ageRangeF f, ageRange p) of
                  (Some (targetMin, targetMax), Some ages) \<Rightarrow>
                    if num_ge (elem ages 0) targetMin \<and> num_le (elem ages 1) targetMax
                    then 5 else 0
                | _ \<Rightarrow> 0)))"

text \<open>\<^verbatim>\<open>products.map(f)\<close> where \<open>f\<close> may raise: the first error ends the map.\<close>

fun map_err :: "('a \<Rightarrow> 'e + 'b) \<Rightarrow> 'a list \<Rightarrow> 'e + 'b list" where
  "map_err g [] = Inr []"
| "map_err g (x # xs) =
     (case g x of
        Inl e \<Rightarrow> Inl e
      | Inr y \<Rightarrow> (case map_err g xs of Inl e \<Rightarrow> Inl e | Inr ys \<Rightarrow> Inr (y # ys)))"

text \<open>
  \<^verbatim>\<open>.sort((a, b) => b.score - a.score)\<close> is a stable sort by descending score;
  \<^const>\<open>sort_key\<close> is a stable insertion sort, here on the negated score.
\<close>

definition scoreAndSortProducts :: "catalog \<Rightarrow> ref list \<Rightarrow> filters \<Rightarrow> js_error + ref list" where
  "scoreAndSortProducts ps products f =
     (case map_err (\<lambda>i. case score f (ps ! i) of Inl e \<Rightarrow> Inl e | Inr s \<Rightarrow> Inr (i, s)) products of
        Inl e \<Rightarrow> Inl e
      | Inr scored \<Rightarrow> Inr (map fst (sort_key (\<lambda>(i, s). - int s) scored)))"

section \<open>The tier controller\<close>

text \<open>\<^verbatim>\<open>this.products.filter(callback)\<close>: the references of the records that pass, in catalogue order.\<close>

definition filter_refs :: "(product \<Rightarrow> bool) \<Rightarrow> catalog \<Rightarrow> ref list" where
  "filter_refs P ps = filter (\<lambda>i. P (ps ! i)) [0..<length ps]"

text \<open>\<^verbatim>\<open>results.forEach(p => ...assignment to fields of p...)\<close>: a write through each reference.\<close>

definition tag :: "(product \<Rightarrow> product) \<Rightarrow> ref list \<Rightarrow> catalog \<Rightarrow> catalog" where
  "tag g refs ps = fold (\<lambda>i s. s[i := g (s ! i)]) refs ps"

text \<open>\<^verbatim>\<open>new Set(filtered.map(p => p.id))\<close>.\<close>

definition existingIds :: "ref list \<Rightarrow> catalog \<Rightarrow> string list" where
  "existingIds filtered ps = map (\<lambda>i. pid (ps ! i)) filtered"

text \<open>
  Each tier takes the store and returns its own contribution (or the error raised) and
  the store it leaves. Tiers 2 to 5 also take \<^verbatim>\<open>filtered\<close>, the references selected
  so far; a tier whose guard is false contributes nothing.
\<close>

definition tier1 :: "filters \<Rightarrow> catalog \<Rightarrow> (js_error + ref list) \<times> catalog" where
  "tier1 f ps =
     (case scoreAndSortProducts ps (filter_refs (tier1_pass f) ps) f of
        Inl e \<Rightarrow> (Inl e, ps)
      | Inr filtered \<Rightarrow> (Inr filtered, tag (\<lambda>p. p\<lparr>tierUsed := Some 1\<rparr>) filtered ps))"

definition tier2 :: "filters \<Rightarrow> ref list \<Rightarrow> catalog \<Rightarrow> (js_error + ref list) \<times> catalog" where
  "tier2 f filtered ps =
     (if length filtered < 3 \<and> (keywords f \<noteq> [] \<or> contentTypes f \<noteq> [])
      then
        let expandedFilters = f\<lparr>
              keywords := (if keywords f \<noteq> [] then expandKeywordsSemantically (keywords f) 1
                           else keywords f),
              contentTypes := (if contentTypes f \<noteq> [] then expandContentTypes (contentTypes f)
                               else contentTypes f)\<rparr>;
            expandedResults =
              filter_refs (tier2_pass f expandedFilters (existingIds filtered ps)) ps;
            ps' = tag (\<lambda>p. p\<lparr>isExpanded := Some True, tierUsed := Some 2\<rparr>) expandedResults ps
        in (scoreAndSortProducts ps' expandedResults expandedFilters, ps')
      else (Inr [], ps))"

text \<open>Tier 3 runs with \<open>level = 2\<close> and tags \<open>3\<close>, Tier 4 with \<open>level = 3\<close> and tags \<open>4\<close>.\<close>

definition tier34 :: "nat \<Rightarrow> nat \<Rightarrow> filters \<Rightarrow> ref list \<Rightarrow> catalog \<Rightarrow> (js_error + ref list) \<times> catalog" where
  "tier34 level n f filtered ps =
     (if length filtered < 3 \<and> (keywords f \<noteq> [] \<or> contentTypes f \<noteq> [])
      then
        let tierFilters = f\<lparr>
              keywords := expandKeywordsSemantically (keywords f) level,
              contentTypes := expandContentTypes (contentTypes f)\<rparr>;
            tierResults = filter_refs (tier34_pass f tierFilters (existingIds filtered ps)) ps;
            ps' = tag (\<lambda>p. p\<lparr>tierUsed := Some n\<rparr>) tierResults ps
        in (scoreAndSortProducts ps' tierResults tierFilters, ps')
      else (Inr [], ps))"

definition tier3 :: "filters \<Rightarrow> ref list \<Rightarrow> catalog \<Rightarrow> (js_error + ref list) \<times> catalog" where
  "tier3 = tier34 2 3"

definition tier4 :: "filters \<Rightarrow> ref list \<Rightarrow> catalog \<Rightarrow> (js_error + ref list) \<times> catalog" where
  "tier4 = tier34 3 4"

text \<open>The metadata score of the Tier 5 comparator.\<close>

definition metaScore :: "product \<Rightarrow> nat" where
  "metaScore a =
     (if truthy_str (author a) then 1 else 0) + (if truthy_str (blurb a) then 1 else 0) +
     (if ageRange a \<noteq> None then 1 else 0)"

text \<open>
  Tier 5 sorts its candidates, tags every one of them, and only then keeps the first ten.
\<close>

definition tier5 :: "filters \<Rightarrow> ref list \<Rightarrow> catalog \<Rightarrow> ref list \<times> catalog" where
  "tier5 f filtered ps =
     (if length filtered < 3
      then
        let tier5Results =
              sort_key (\<lambda>i. - int (metaScore (ps ! i)))
                (filter_refs (tier5_pass f (existingIds filtered ps)) ps);
            ps' = tag (\<lambda>p. p\<lparr>tierUsed := Some 5\<rparr>) tier5Results ps
        in (take 10 tier5Results, ps')
      else ([], ps))"

text \<open>
  The body of \<^verbatim>\<open>preFilterProducts\<close> after the filters are extracted, up to the final
  \<^verbatim>\<open>slice\<close>: the five contributions (\<^verbatim>\<open>filtered\<close> is their concatenation so far) and
  the store at the end. An error raised in a tier leaves the store as that tier left it.
\<close>

definition runTiers ::
  "filters \<Rightarrow> catalog \<Rightarrow>
   (js_error + ref list \<times> ref list \<times> ref list \<times> ref list \<times> ref list) \<times> catalog" where
  "runTiers f ps0 =
     (case tier1 f ps0 of
        (Inl e, ps1) \<Rightarrow> (Inl e, ps1)
      | (Inr r1, ps1) \<Rightarrow>
     (case tier2 f r1 ps1 of
        (Inl e, ps2) \<Rightarrow> (Inl e, ps2)
      | (Inr r2, ps2) \<Rightarrow>
     (case tier3 f (r1 @ r2) ps2 of
        (Inl e, ps3) \<Rightarrow> (Inl e, ps3)
      | (Inr r3, ps3) \<Rightarrow>
     (case tier4 f (r1 @ r2 @ r3) ps3 of
        (Inl e, ps4) \<Rightarrow> (Inl e, ps4)
      | (Inr r4, ps4) \<Rightarrow>
     (case tier5 f (r1 @ r2 @ r3 @ r4) ps4 of
        (r5, ps5) \<Rightarrow> (Inr (r1, r2, r3, r4, r5), ps5))))))"

text \<open>\<^verbatim>\<open>return filtered.slice(0, 100)\<close>.\<close>

definition preFilterWith :: "filters \<Rightarrow> catalog \<Rightarrow> (js_error + ref list) \<times> catalog" where
  "preFilterWith f ps0 =
     (case runTiers f ps0 of
        (Inl e, ps') \<Rightarrow> (Inl e, ps')
      | (Inr (r1, r2, r3, r4, r5), ps') \<Rightarrow> (Inr (take 100 (r1 @ r2 @ r3 @ r4 @ r5)), ps'))"

definition extractFilters :: "string \<Rightarrow> filters" where
  "extractFilters queryLower =
     \<lparr>maxPrice = extractMaxPrice queryLower,
      ageRangeF = extractAgeRange queryLower,
      maxRuntime = extractMaxRuntime queryLower,
      contentTypes = extractContentTypes queryLower,
      keywords = extractKeywords queryLower\<rparr>"

text \<open>
  \<^verbatim>\<open>preFilterProducts(conversationHistory)\<close> on the catalogue \<^verbatim>\<open>this.products\<close>. The
  logging and the debug panel read the records and write nothing on them; they are left
  out.
\<close>

definition preFilterProducts :: "message list \<Rightarrow> catalog \<Rightarrow> (js_error + ref list) \<times> catalog" where
  "preFilterProducts conversationHistory products =
     (let userMessages = filter (\<lambda>msg. role msg = ''user'') conversationHistory;
          latestUserMessage = (if userMessages \<noteq> [] then content (last userMessages) else []);
          queryLower = toLowerCase latestUserMessage
      in preFilterWith (extractFilters queryLower) products)"

text \<open>
  A record without the two annotation fields: what the catalogue holds of it besides what
  the pipeline writes.
\<close>

definition core :: "product \<Rightarrow> product" where
  "core p = p\<lparr>tierUsed := None, isExpanded := None\<rparr>"

section \<open>Example records\<close>

text \<open>
  A catalogue record for the examples: identifier, title, blurb, price, runtime, age range
  and availability as given, every other field absent.
\<close>

definition item ::
  "string \<Rightarrow> string option \<Rightarrow> string option \<Rightarrow> rat option \<Rightarrow> nat option \<Rightarrow>
   nat option list option \<Rightarrow> bool option \<Rightarrow> product" where
  "item i t b pr rt ar av =
     \<lparr>pid = i, title = t, author = None, blurb = b, price = pr, runtime = rt, ageRange = ar,
      contentType = None, availableForSale = av, flag = None, tierUsed = None,
      isExpanded = None\<rparr>"

text \<open>A conversation of one user message.\<close>

definition user_says :: "string \<Rightarrow> message list" where
  "user_says q = [\<lparr>role = ''user'', content = q\<rparr>]"

text \<open>
  A small catalogue and a query that reaches Tiers 1, 2 and 5: the query asks for
  dragons, for a four-year-old, under ten pounds.
\<close>

definition shelf :: catalog where
  "shelf =
     [item ''a'' (Some ''Dragon Tales'') None (Some 5) (Some 600) (Some [Some 3, Some 5]) (Some True),
      item ''b'' (Some ''Castle Keep'') None (Some 8) (Some 900) (Some [Some 4, Some 6]) (Some True),
      item ''c'' (Some ''Dragon Gold'') None (Some 20) (Some 600) (Some [Some 3, Some 5]) (Some True),
      item ''d'' (Some ''Plain Songs'') None (Some 3) (Some 300) None (Some True),
      item ''e'' (Some ''Old Dragon'') None (Some 4) (Some 300) (Some [Some 8, Some 10]) (Some True)]"

definition shelf_query :: string where
  "shelf_query = ''dragon for 4 year olds under '' @ [pound] @ ''10''"

definition shelf_filters :: filters where
  "shelf_filters = extractFilters (toLowerCase shelf_query)"

section \<open>Auxiliary facts about the store, the sort and the tiers\<close>

lemma core_fields:
  "pid (core p) = pid p" "title (core p) = title p" "author (core p) = author p"
  "blurb (core p) = blurb p" "price (core p) = price p" "runtime (core p) = runtime p"
  "ageRange (core p) = ageRange p" "contentType (core p) = contentType p"
  "availableForSale (core p) = availableForSale p" "flag (core p) = flag p"
  by (simp_all add: core_def)

lemma core_eq_fields:
  assumes "core p = core q"
  shows "pid p = pid q" "title p = title q" "author p = author q" "blurb p = blurb q"
    "price p = price q" "runtime p = runtime q" "ageRange p = ageRange q"
    "contentType p = contentType q" "availableForSale p = availableForSale q" "flag p = flag q"
  using assms core_fields by metis+

lemma core_update [simp]:
  "core (p\<lparr>tierUsed := a\<rparr>) = core p" "core (p\<lparr>isExpanded := b\<rparr>) = core p"
  by (simp_all add: core_def)


lemma map_core_update:
  assumes "core (g (s ! i)) = core (s ! i)"
  shows "map core (s[i := g (s ! i)]) = map core s"
proof (cases "i < length s")
  case True
  have "map core (s[i := g (s ! i)]) = (map core s)[i := core (g (s ! i))]"
    by (simp add: map_update)
  also have "\<dots> = (map core s)[i := (map core s) ! i]"
    using True assms by simp
  also have "\<dots> = map core s" by simp
  finally show ?thesis .
next
  case False
  then have "length s \<le> i" by simp
  then have "s[i := g (s ! i)] = s" by (rule list_update_beyond)
  then show ?thesis by simp
qed

lemma tag_core:
  assumes "\<And>p. core (g p) = core p"
  shows "map core (tag g refs ps) = map core ps"
  unfolding tag_def
proof (induction refs arbitrary: ps)
  case Nil
  show ?case by simp
next
  case (Cons i refs)
  have "map core (fold (\<lambda>i s. s[i := g (s ! i)]) refs (ps[i := g (ps ! i)])) = map core (ps[i := g (ps ! i)])"
    by (rule Cons.IH)
  then show ?case using assms by (simp add: map_core_update)
qed

lemma map_core_nth:
  assumes "map core ps' = map core ps" "i < length ps"
  shows "core (ps' ! i) = core (ps ! i)"
proof -
  have "length ps' = length ps" using assms(1) by (metis length_map)
  then have "core (ps' ! i) = map core ps' ! i" using assms(2) by simp
  also have "\<dots> = core (ps ! i)" using assms by simp
  finally show ?thesis .
qed

lemma map_core_length: "map core ps' = map core ps \<Longrightarrow> length ps' = length ps"
  by (metis length_map)

lemma set_filter_refs: "set (filter_refs P ps) = {i. i < length ps \<and> P (ps ! i)}"
  by (auto simp: filter_refs_def)

lemma distinct_filter_refs: "distinct (filter_refs P ps)"
  by (simp add: filter_refs_def)

lemma map_err_Inr:
  assumes "map_err (\<lambda>i. case h i of Inl e \<Rightarrow> Inl e | Inr s \<Rightarrow> Inr (i, s)) xs = Inr ys"
  shows "map fst ys = xs"
  using assms
  by (induction xs arbitrary: ys) (auto split: sum.splits)

lemma scoreAndSort_set:
  assumes "scoreAndSortProducts ps refs f = Inr out"
  shows "set out = set refs"
proof -
  from assms obtain scored where
    s: "map_err (\<lambda>i. case score f (ps ! i) of Inl e \<Rightarrow> Inl e | Inr s \<Rightarrow> Inr (i, s)) refs = Inr scored"
    and o: "out = map fst (sort_key (\<lambda>(i, s). - int s) scored)"
    by (auto simp: scoreAndSortProducts_def split: sum.splits)
  have "map fst scored = refs" using s by (rule map_err_Inr)
  then have "fst ` set scored = set refs" by (metis set_map)
  then show ?thesis using o by simp
qed

lemma scoreAndSort_distinct:
  assumes "scoreAndSortProducts ps refs f = Inr out" "distinct refs"
  shows "distinct out"
proof -
  from assms obtain scored where
    s: "map_err (\<lambda>i. case score f (ps ! i) of Inl e \<Rightarrow> Inl e | Inr s \<Rightarrow> Inr (i, s)) refs = Inr scored"
    and o: "out = map fst (sort_key (\<lambda>(i, s). - int s) scored)"
    by (auto simp: scoreAndSortProducts_def split: sum.splits)
  have "map fst scored = refs" using s by (rule map_err_Inr)
  then have "distinct (map fst scored)" using assms(2) by simp
  then have "distinct scored" "inj_on fst (set scored)" by (simp_all add: distinct_map)
  then show ?thesis using o by (simp add: distinct_map)
qed

lemma scoreAndSort_nil [simp]: "scoreAndSortProducts ps [] f = Inr []"
  by (simp add: scoreAndSortProducts_def)

lemma tag_nil [simp]: "tag g [] ps = ps"
  by (simp add: tag_def)

lemma allChecks_append: "allChecks (xs @ ys) = (allChecks xs \<and> allChecks ys)"
  by (auto simp: allChecks_def)

lemma allChecks_single [simp]: "allChecks [b] = b"
  by (simp add: allChecks_def)

lemma allChecks_nil [simp]: "allChecks []"
  by (simp add: allChecks_def)

lemma tier1_store:
  assumes "tier1 f ps = (r, ps')"
  shows "map core ps' = map core ps"
  using assms by (auto simp: tier1_def tag_core split: sum.splits)

lemma tier2_store:
  assumes "tier2 f filtered ps = (r, ps')"
  shows "map core ps' = map core ps"
  using assms by (auto simp: tier2_def Let_def tag_core split: if_splits)

lemma tier34_store:
  assumes "tier34 level n f filtered ps = (r, ps')"
  shows "map core ps' = map core ps"
  using assms by (auto simp: tier34_def Let_def tag_core split: if_splits)

lemma tier5_store:
  assumes "tier5 f filtered ps = (r, ps')"
  shows "map core ps' = map core ps"
  using assms by (auto simp: tier5_def Let_def tag_core split: if_splits)

lemma runTiers_cases:
  assumes "runTiers f ps0 = (Inr (r1, r2, r3, r4, r5), ps5)"
  obtains ps1 ps2 ps3 ps4 where
    "tier1 f ps0 = (Inr r1, ps1)"
    "tier2 f r1 ps1 = (Inr r2, ps2)"
    "tier3 f (r1 @ r2) ps2 = (Inr r3, ps3)"
    "tier4 f (r1 @ r2 @ r3) ps3 = (Inr r4, ps4)"
    "tier5 f (r1 @ r2 @ r3 @ r4) ps4 = (r5, ps5)"
  using assms unfolding runTiers_def
  by (auto split: prod.splits sum.splits)

lemma runTiers_store:
  assumes "runTiers f ps0 = (r, ps')"
  shows "map core ps' = map core ps0"
proof -
  obtain a1 s1 where t1: "tier1 f ps0 = (a1, s1)" by (cases "tier1 f ps0")
  have c1: "map core s1 = map core ps0" using t1 by (rule tier1_store)
  show ?thesis
  proof (cases a1)
    case (Inl e)
    then show ?thesis using assms t1 c1 by (simp add: runTiers_def)
  next
    case r1: (Inr r1)
    obtain a2 s2 where t2: "tier2 f r1 s1 = (a2, s2)" by (cases "tier2 f r1 s1")
    have c2: "map core s2 = map core ps0" using tier2_store[OF t2] c1 by simp
    show ?thesis
    proof (cases a2)
      case (Inl e)
      then show ?thesis using assms t1 r1 t2 c2 by (simp add: runTiers_def)
    next
      case r2: (Inr r2)
      obtain a3 s3 where t3: "tier3 f (r1 @ r2) s2 = (a3, s3)" by (cases "tier3 f (r1 @ r2) s2")
      have c3: "map core s3 = map core ps0"
        using tier34_store[of 2 3 f "r1 @ r2" s2 a3 s3] t3 c2 by (simp add: tier3_def)
      show ?thesis
      proof (cases a3)
        case (Inl e)
        then show ?thesis using assms t1 r1 t2 r2 t3 c3 by (simp add: runTiers_def)
      next
        case r3: (Inr r3)
        obtain a4 s4 where t4: "tier4 f (r1 @ r2 @ r3) s3 = (a4, s4)"
          by (cases "tier4 f (r1 @ r2 @ r3) s3")
        have c4: "map core s4 = map core ps0"
          using tier34_store[of 3 4 f "r1 @ r2 @ r3" s3 a4 s4] t4 c3 by (simp add: tier4_def)
        show ?thesis
        proof (cases a4)
          case (Inl e)
          then show ?thesis using assms t1 r1 t2 r2 t3 r3 t4 c4 by (simp add: runTiers_def)
        next
          case r4: (Inr r4)
          obtain r5 s5 where t5: "tier5 f (r1 @ r2 @ r3 @ r4) s4 = (r5, s5)"
            by (cases "tier5 f (r1 @ r2 @ r3 @ r4) s4")
          have c5: "map core s5 = map core ps0" using tier5_store[OF t5] c4 by simp
          show ?thesis using assms t1 r1 t2 r2 t3 r3 t4 r4 t5 c5 by (simp add: runTiers_def)
        qed
      qed
    qed
  qed
qed

lemma preFilterWith_store:
  assumes "preFilterWith f ps0 = (r, ps')"
  shows "map core ps' = map core ps0"
proof -
  obtain a s where rt: "runTiers f ps0 = (a, s)" by (cases "runTiers f ps0")
  have "s = ps'" using assms rt by (auto simp: preFilterWith_def split: sum.splits prod.splits)
  then show ?thesis using runTiers_store[OF rt] by simp
qed

text \<open>What the members of each contribution satisfy, on the store the tier was given.\<close>

lemma tier1_member:
  assumes "tier1 f ps = (Inr r1, ps')" "i \<in> set r1"
  shows "i < length ps \<and> tier1_pass f (ps ! i)"
proof -
  from assms(1) have "scoreAndSortProducts ps (filter_refs (tier1_pass f) ps) f = Inr r1"
    by (auto simp: tier1_def split: sum.splits)
  then have "set r1 = set (filter_refs (tier1_pass f) ps)" by (rule scoreAndSort_set)
  then show ?thesis using assms(2) by (simp add: set_filter_refs)
qed

lemma tier1_distinct:
  assumes "tier1 f ps = (Inr r1, ps')"
  shows "distinct r1"
proof -
  from assms(1) have "scoreAndSortProducts ps (filter_refs (tier1_pass f) ps) f = Inr r1"
    by (auto simp: tier1_def split: sum.splits)
  then show ?thesis using distinct_filter_refs by (rule scoreAndSort_distinct)
qed

lemma tier2_member:
  assumes "tier2 f filtered ps = (Inr r2, ps')" "i \<in> set r2"
  shows "i < length ps \<and> (\<exists>ef. tier2_pass f ef (existingIds filtered ps) (ps ! i))"
proof (cases "length filtered < 3 \<and> (keywords f \<noteq> [] \<or> contentTypes f \<noteq> [])")
  case True
  then obtain ef where
    "scoreAndSortProducts ps' (filter_refs (tier2_pass f ef (existingIds filtered ps)) ps) ef = Inr r2"
    using assms(1) by (auto simp: tier2_def Let_def)
  then have "set r2 = set (filter_refs (tier2_pass f ef (existingIds filtered ps)) ps)"
    by (rule scoreAndSort_set)
  then show ?thesis using assms(2) by (auto simp: set_filter_refs)
next
  case False
  then have "r2 = []" using assms(1) by (auto simp: tier2_def)
  then show ?thesis using assms(2) by simp
qed

lemma tier2_distinct:
  assumes "tier2 f filtered ps = (Inr r2, ps')"
  shows "distinct r2"
proof (cases "length filtered < 3 \<and> (keywords f \<noteq> [] \<or> contentTypes f \<noteq> [])")
  case True
  then obtain ef where
    "scoreAndSortProducts ps' (filter_refs (tier2_pass f ef (existingIds filtered ps)) ps) ef = Inr r2"
    using assms(1) by (auto simp: tier2_def Let_def)
  then show ?thesis using distinct_filter_refs by (rule scoreAndSort_distinct)
next
  case False
  then have "r2 = []" using assms(1) by (auto simp: tier2_def)
  then show ?thesis by simp
qed

lemma tier34_member:
  assumes "tier34 level n f filtered ps = (Inr r, ps')" "i \<in> set r"
  shows "i < length ps \<and> (\<exists>tf. tier34_pass f tf (existingIds filtered ps) (ps ! i))"
proof (cases "length filtered < 3 \<and> (keywords f \<noteq> [] \<or> contentTypes f \<noteq> [])")
  case True
  then obtain tf where
    "scoreAndSortProducts ps' (filter_refs (tier34_pass f tf (existingIds filtered ps)) ps) tf = Inr r"
    using assms(1) by (auto simp: tier34_def Let_def)
  then have "set r = set (filter_refs (tier34_pass f tf (existingIds filtered ps)) ps)"
    by (rule scoreAndSort_set)
  then show ?thesis using assms(2) by (auto simp: set_filter_refs)
next
  case False
  then have "r = []" using assms(1) by (auto simp: tier34_def)
  then show ?thesis using assms(2) by simp
qed

lemma tier34_distinct:
  assumes "tier34 level n f filtered ps = (Inr r, ps')"
  shows "distinct r"
proof (cases "length filtered < 3 \<and> (keywords f \<noteq> [] \<or> contentTypes f \<noteq> [])")
  case True
  then obtain tf where
    "scoreAndSortProducts ps' (filter_refs (tier34_pass f tf (existingIds filtered ps)) ps) tf = Inr r"
    using assms(1) by (auto simp: tier34_def Let_def)
  then show ?thesis using distinct_filter_refs by (rule scoreAndSort_distinct)
next
  case False
  then have "r = []" using assms(1) by (auto simp: tier34_def)
  then show ?thesis by simp
qed

lemma tier5_member:
  assumes "tier5 f filtered ps = (r5, ps')" "i \<in> set r5"
  shows "i < length ps \<and> tier5_pass f (existingIds filtered ps) (ps ! i)"
proof (cases "length filtered < 3")
  case True
  then have "r5 = take 10 (sort_key (\<lambda>i. - int (metaScore (ps ! i)))
                (filter_refs (tier5_pass f (existingIds filtered ps)) ps))"
    using assms(1) by (auto simp: tier5_def Let_def)
  then have "i \<in> set (filter_refs (tier5_pass f (existingIds filtered ps)) ps)"
    using assms(2) in_set_takeD by fastforce
  then show ?thesis by (simp add: set_filter_refs)
next
  case False
  then have "r5 = []" using assms(1) by (auto simp: tier5_def)
  then show ?thesis using assms(2) by simp
qed

lemma tier5_distinct:
  assumes "tier5 f filtered ps = (r5, ps')"
  shows "distinct r5"
  using assms by (auto simp: tier5_def Let_def distinct_filter_refs split: if_splits)

lemma price_fails2_over:
  assumes "\<not> price_fails2 f p" "maxPrice f = Some m" "m \<noteq> 0"
  shows "\<not> price_over p m"
  using assms
  by (auto simp: price_fails2_def price_over_def truthy_price_def split: option.splits)

lemma tier1_pass_price:
  assumes "tier1_pass f p" "maxPrice f = Some m" "m \<noteq> 0"
  shows "\<not> price_over p m"
proof -
  have "hasFilters f" using assms(2,3) by (simp add: hasFilters_def truthy_num_def)
  then have "\<not> price_fails1 f p" using assms(1) by (auto simp: tier1_pass_def split: if_splits)
  then show ?thesis using assms(2,3) by (simp add: price_fails1_def)
qed

lemma tier2_pass_parts:
  assumes "tier2_pass f ef ids p"
  shows "pid p \<notin> set ids" "truthy_bool (availableForSale p)" "\<not> price_fails2 f p"
    "allChecks (ageCheck f p)"
  using assms by (auto simp: tier2_pass_def allChecks_append split: if_splits)

lemma tier34_pass_parts:
  assumes "tier34_pass f tf ids p"
  shows "pid p \<notin> set ids" "truthy_bool (availableForSale p)" "\<not> price_fails2 f p"
    "allChecks (ageCheck f p)"
  using assms by (auto simp: tier34_pass_def allChecks_append split: if_splits)

lemma tier5_pass_parts:
  assumes "tier5_pass f ids p"
  shows "pid p \<notin> set ids" "truthy_bool (availableForSale p)" "\<not> price_fails2 f p"
  using assms by (auto simp: tier5_pass_def split: if_splits)

lemma searchText_core:
  assumes "core p = core q"
  shows "searchText p = searchText q"
  using core_eq_fields[OF assms] by (simp add: searchText_def)

lemma checks_core:
  assumes "core p = core q"
  shows "price_fails1 f p = price_fails1 f q" "price_fails2 f p = price_fails2 f q"
    "runtime_fails1 f p = runtime_fails1 f q" "ageCheck f p = ageCheck f q"
    "contentTypeCheck ts p = contentTypeCheck ts q"
    "keywordCheckFuzzy ks p = keywordCheckFuzzy ks q"
    "keywordCheckExact ks p = keywordCheckExact ks q"
  using core_eq_fields[OF assms] searchText_core[OF assms]
  by (simp_all add: price_fails1_def price_fails2_def runtime_fails1_def price_over_def
      runtime_over_def ageCheck_def contentTypeCheck_def keywordCheckFuzzy_def
      keywordCheckExact_def cong: option.case_cong)

lemma pass_core:
  assumes "core p = core q"
  shows "tier1_pass f p = tier1_pass f q" "tier2_pass f ef ids p = tier2_pass f ef ids q"
    "tier34_pass f tf ids p = tier34_pass f tf ids q" "tier5_pass f ids p = tier5_pass f ids q"
  using core_eq_fields[OF assms] checks_core[OF assms]
  by (simp_all add: tier1_pass_def tier2_pass_def tier34_pass_def tier5_pass_def)

lemma existingIds_core:
  assumes "map core ps = map core qs" "\<forall>j\<in>set filtered. j < length qs"
  shows "existingIds filtered ps = existingIds filtered qs"
  unfolding existingIds_def
proof (rule map_cong[OF refl])
  fix j assume "j \<in> set filtered"
  then have "j < length qs" using assms(2) by simp
  then have "core (ps ! j) = core (qs ! j)" using assms(1) by (rule map_core_nth[rotated])
  then show "pid (ps ! j) = pid (qs ! j)" by (rule core_eq_fields(1))
qed

text \<open>
  The facts of one run, stated on the store the run leaves: what the members of each
  contribution passed, and against which identifiers.
\<close>

lemma run_facts:
  assumes run: "runTiers f ps0 = (Inr (r1, r2, r3, r4, r5), ps')"
  shows run_core: "map core ps' = map core ps0"
    and run_r1: "\<And>i. i \<in> set r1 \<Longrightarrow> i < length ps' \<and> tier1_pass f (ps' ! i)"
    and run_r2: "\<And>i. i \<in> set r2 \<Longrightarrow>
           i < length ps' \<and> (\<exists>ef. tier2_pass f ef (existingIds r1 ps') (ps' ! i))"
    and run_r3: "\<And>i. i \<in> set r3 \<Longrightarrow>
           i < length ps' \<and> (\<exists>tf. tier34_pass f tf (existingIds (r1 @ r2) ps') (ps' ! i))"
    and run_r4: "\<And>i. i \<in> set r4 \<Longrightarrow>
           i < length ps' \<and> (\<exists>tf. tier34_pass f tf (existingIds (r1 @ r2 @ r3) ps') (ps' ! i))"
    and run_r5: "\<And>i. i \<in> set r5 \<Longrightarrow>
           i < length ps' \<and> tier5_pass f (existingIds (r1 @ r2 @ r3 @ r4) ps') (ps' ! i)"
    and run_distinct: "distinct r1 \<and> distinct r2 \<and> distinct r3 \<and> distinct r4 \<and> distinct r5"
proof -
  from run obtain ps1 ps2 ps3 ps4 where
    t1: "tier1 f ps0 = (Inr r1, ps1)" and
    t2: "tier2 f r1 ps1 = (Inr r2, ps2)" and
    t3: "tier34 2 3 f (r1 @ r2) ps2 = (Inr r3, ps3)" and
    t4: "tier34 3 4 f (r1 @ r2 @ r3) ps3 = (Inr r4, ps4)" and
    t5: "tier5 f (r1 @ r2 @ r3 @ r4) ps4 = (r5, ps')"
    by (auto elim!: runTiers_cases simp: tier3_def tier4_def)
  have c1: "map core ps1 = map core ps0" using t1 by (rule tier1_store)
  have c2: "map core ps2 = map core ps1" using t2 by (rule tier2_store)
  have c3: "map core ps3 = map core ps2" using t3 by (rule tier34_store)
  have c4: "map core ps4 = map core ps3" using t4 by (rule tier34_store)
  have c5: "map core ps' = map core ps4" using t5 by (rule tier5_store)
  show c: "map core ps' = map core ps0" using c1 c2 c3 c4 c5 by simp
  have e0: "map core ps0 = map core ps'" using c by simp
  have e1: "map core ps1 = map core ps'" using c1 c by simp
  have e2: "map core ps2 = map core ps'" using c2 c1 c by simp
  have e3: "map core ps3 = map core ps'" using c3 c2 c1 c by simp
  have e4: "map core ps4 = map core ps'" using c5 by simp
  have len: "length ps0 = length ps'" "length ps1 = length ps'" "length ps2 = length ps'"
    "length ps3 = length ps'" "length ps4 = length ps'"
    using e0 e1 e2 e3 e4 by (metis length_map)+
  have m1: "i < length ps' \<and> tier1_pass f (ps' ! i)" if "i \<in> set r1" for i
  proof -
    have a: "i < length ps0 \<and> tier1_pass f (ps0 ! i)" using t1 that by (rule tier1_member)
    then have "i < length ps'" using len by simp
    then have "core (ps0 ! i) = core (ps' ! i)" using e0 by (rule map_core_nth[rotated])
    then show ?thesis using a len pass_core(1) by metis
  qed
  then show "\<And>i. i \<in> set r1 \<Longrightarrow> i < length ps' \<and> tier1_pass f (ps' ! i)" .
  have b1: "\<forall>j\<in>set r1. j < length ps'" using m1 by blast
  have m2: "i < length ps' \<and> (\<exists>ef. tier2_pass f ef (existingIds r1 ps') (ps' ! i))"
    if "i \<in> set r2" for i
  proof -
    have "i < length ps1 \<and> (\<exists>ef. tier2_pass f ef (existingIds r1 ps1) (ps1 ! i))"
      using t2 that by (rule tier2_member)
    then obtain ef where a: "i < length ps1" "tier2_pass f ef (existingIds r1 ps1) (ps1 ! i)"
      by blast
    have i: "i < length ps'" using a(1) len by simp
    then have "core (ps1 ! i) = core (ps' ! i)" using e1 by (rule map_core_nth[rotated])
    moreover have "existingIds r1 ps1 = existingIds r1 ps'" using e1 b1 by (rule existingIds_core)
    ultimately have "tier2_pass f ef (existingIds r1 ps') (ps' ! i)"
      using a(2) pass_core(2) by metis
    then show ?thesis using i by blast
  qed
  then show "\<And>i. i \<in> set r2 \<Longrightarrow>
           i < length ps' \<and> (\<exists>ef. tier2_pass f ef (existingIds r1 ps') (ps' ! i))" .
  have b2: "\<forall>j\<in>set (r1 @ r2). j < length ps'" using m1 m2 by auto
  have m3: "i < length ps' \<and> (\<exists>tf. tier34_pass f tf (existingIds (r1 @ r2) ps') (ps' ! i))"
    if "i \<in> set r3" for i
  proof -
    have "i < length ps2 \<and> (\<exists>tf. tier34_pass f tf (existingIds (r1 @ r2) ps2) (ps2 ! i))"
      using t3 that by (rule tier34_member)
    then obtain tf where a: "i < length ps2" "tier34_pass f tf (existingIds (r1 @ r2) ps2) (ps2 ! i)"
      by blast
    have i: "i < length ps'" using a(1) len by simp
    then have "core (ps2 ! i) = core (ps' ! i)" using e2 by (rule map_core_nth[rotated])
    moreover have "existingIds (r1 @ r2) ps2 = existingIds (r1 @ r2) ps'"
      using e2 b2 by (rule existingIds_core)
    ultimately have "tier34_pass f tf (existingIds (r1 @ r2) ps') (ps' ! i)"
      using a(2) pass_core(3) by metis
    then show ?thesis using i by blast
  qed
  then show "\<And>i. i \<in> set r3 \<Longrightarrow>
           i < length ps' \<and> (\<exists>tf. tier34_pass f tf (existingIds (r1 @ r2) ps') (ps' ! i))" .
  have b3: "\<forall>j\<in>set (r1 @ r2 @ r3). j < length ps'" using m1 m2 m3 by auto
  have m4: "i < length ps' \<and> (\<exists>tf. tier34_pass f tf (existingIds (r1 @ r2 @ r3) ps') (ps' ! i))"
    if "i \<in> set r4" for i
  proof -
    have "i < length ps3 \<and> (\<exists>tf. tier34_pass f tf (existingIds (r1 @ r2 @ r3) ps3) (ps3 ! i))"
      using t4 that by (rule tier34_member)
    then obtain tf where
      a: "i < length ps3" "tier34_pass f tf (existingIds (r1 @ r2 @ r3) ps3) (ps3 ! i)"
      by blast
    have i: "i < length ps'" using a(1) len by simp
    then have "core (ps3 ! i) = core (ps' ! i)" using e3 by (rule map_core_nth[rotated])
    moreover have "existingIds (r1 @ r2 @ r3) ps3 = existingIds (r1 @ r2 @ r3) ps'"
      using e3 b3 by (rule existingIds_core)
    ultimately have "tier34_pass f tf (existingIds (r1 @ r2 @ r3) ps') (ps' ! i)"
      using a(2) pass_core(3) by metis
    then show ?thesis using i by blast
  qed
  then show "\<And>i. i \<in> set r4 \<Longrightarrow>
           i < length ps' \<and> (\<exists>tf. tier34_pass f tf (existingIds (r1 @ r2 @ r3) ps') (ps' ! i))" .
  have b4: "\<forall>j\<in>set (r1 @ r2 @ r3 @ r4). j < length ps'" using m1 m2 m3 m4 by auto
  show "i < length ps' \<and> tier5_pass f (existingIds (r1 @ r2 @ r3 @ r4) ps') (ps' ! i)"
    if "i \<in> set r5" for i
  proof -
    have a: "i < length ps4 \<and> tier5_pass f (existingIds (r1 @ r2 @ r3 @ r4) ps4) (ps4 ! i)"
      using t5 that by (rule tier5_member)
    have i: "i < length ps'" using a len by simp
    then have "core (ps4 ! i) = core (ps' ! i)" using e4 by (rule map_core_nth[rotated])
    moreover have "existingIds (r1 @ r2 @ r3 @ r4) ps4 = existingIds (r1 @ r2 @ r3 @ r4) ps'"
      using e4 b4 by (rule existingIds_core)
    ultimately have "tier5_pass f (existingIds (r1 @ r2 @ r3 @ r4) ps') (ps' ! i)"
      using a pass_core(4) by metis
    then show ?thesis using i by blast
  qed
  show "distinct r1 \<and> distinct r2 \<and> distinct r3 \<and> distinct r4 \<and> distinct r5"
    using tier1_distinct[OF t1] tier2_distinct[OF t2] tier34_distinct[OF t3]
      tier34_distinct[OF t4] tier5_distinct[OF t5] by simp
qed

lemma preFilterWith_run:
  assumes "runTiers f ps0 = (Inr (r1, r2, r3, r4, r5), ps')"
  shows "preFilterWith f ps0 = (Inr (take 100 (r1 @ r2 @ r3 @ r4 @ r5)), ps')"
  using assms by (simp add: preFilterWith_def)

lemma age_check_overlap:
  assumes "allChecks (ageCheck f p)" "ageRangeF f = Some (lo, hi)"
  shows "\<exists>ages. ageRange p = Some ages \<and> num_le (elem ages 0) hi \<and> num_ge (elem ages 1) lo"
  using assms by (auto simp: ageCheck_def split: option.splits)

lemma numeric_bounds_overlap:
  assumes "num_le (elem [Some a, Some b] 0) hi" "num_ge (elem [Some a, Some b] 1) lo"
  shows "a \<le> hi \<and> b \<ge> lo"
  using assms by (simp add: elem_def num_le_def num_ge_def)

lemma tier1_pass_age:
  assumes "tier1_pass f p" "ageRangeF f = Some (lo, hi)"
  shows "allChecks (ageCheck f p)"
proof -
  have "hasFilters f" using assms(2) by (simp add: hasFilters_def)
  then show ?thesis using assms(1) by (auto simp: tier1_pass_def allChecks_append split: if_splits)
qed

lemma ids_distinct:
  assumes d: "distinct (map pid ps0)" and c: "map core ps' = map core ps0"
    and r: "distinct refs" and b: "\<forall>i\<in>set refs. i < length ps'"
  shows "distinct (existingIds refs ps')"
proof -
  have len: "length ps' = length ps0" using c by (rule map_core_length)
  have "inj_on (\<lambda>i. pid (ps' ! i)) (set refs)"
  proof (rule inj_onI)
    fix i j assume i: "i \<in> set refs" and j: "j \<in> set refs"
      and e: "pid (ps' ! i) = pid (ps' ! j)"
    have il: "i < length ps0" and jl: "j < length ps0" using i j b len by simp_all
    have "pid (ps' ! i) = map pid ps0 ! i"
      using core_eq_fields(1)[OF map_core_nth[OF c il]] il by simp
    moreover have "pid (ps' ! j) = map pid ps0 ! j"
      using core_eq_fields(1)[OF map_core_nth[OF c jl]] jl by simp
    ultimately have "map pid ps0 ! i = map pid ps0 ! j" using e by simp
    then show "i = j" using d il jl nth_eq_iff_index_eq[of "map pid ps0" i j] by simp
  qed
  then show ?thesis using r by (simp add: existingIds_def distinct_map)
qed

lemma existingIds_append: "existingIds (xs @ ys) ps = existingIds xs ps @ existingIds ys ps"
  by (simp add: existingIds_def)

lemma existingIds_take: "existingIds (take n xs) ps = take n (existingIds xs ps)"
  by (simp add: existingIds_def take_map)

lemma existingIds_member: "i \<in> set refs \<Longrightarrow> pid (ps ! i) \<in> set (existingIds refs ps)"
  by (simp add: existingIds_def)

lemma ids_disjoint:
  assumes "\<And>i. i \<in> set ys \<Longrightarrow> pid (ps ! i) \<notin> set (existingIds xs ps)"
  shows "set (existingIds xs ps) \<inter> set (existingIds ys ps) = {}"
proof -
  have "x \<notin> set (existingIds xs ps)" if "x \<in> set (existingIds ys ps)" for x
  proof -
    from that obtain i where "i \<in> set ys" "x = pid (ps ! i)"
      by (auto simp: existingIds_def)
    then show ?thesis using assms by simp
  qed
  then show ?thesis by blast
qed

lemma ids_distinct_append:
  assumes "distinct (existingIds xs ps)" "distinct (existingIds ys ps)"
    "set (existingIds xs ps) \<inter> set (existingIds ys ps) = {}"
  shows "distinct (existingIds (xs @ ys) ps)"
  using assms by (simp add: existingIds_append)

lemma price_le_not_over:
  assumes "\<forall>r. price p = Some r \<longrightarrow> r \<le> of_nat m"
  shows "\<not> price_over p m"
  using assms by (auto simp: price_over_def split: option.splits)

lemma not_price_over:
  assumes "\<not> price_over p m" "price p = Some r"
  shows "r \<le> of_nat m"
  using assms by (simp add: price_over_def)












lemma available_irrelevant:
  "price_fails1 f (p\<lparr>availableForSale := v\<rparr>) = price_fails1 f p"
  "runtime_fails1 f (p\<lparr>availableForSale := v\<rparr>) = runtime_fails1 f p"
  "ageCheck f (p\<lparr>availableForSale := v\<rparr>) = ageCheck f p"
  "contentTypeCheck ts (p\<lparr>availableForSale := v\<rparr>) = contentTypeCheck ts p"
  "keywordCheckFuzzy ks (p\<lparr>availableForSale := v\<rparr>) = keywordCheckFuzzy ks p"
  by (simp_all add: price_fails1_def runtime_fails1_def price_over_def runtime_over_def
      ageCheck_def contentTypeCheck_def keywordCheckFuzzy_def searchText_def
      cong: option.case_cong)

text \<open>The example run: one record from Tier 1, one from Tier 2, two from Tier 5.\<close>

lemma shelf_run: "fst (runTiers shelf_filters shelf) = Inr ([0], [1], [], [], [4, 3])"
  by code_simp

text \<open>
  What the tiers do guarantee of the two limits. With a maximum price other than 0, no
  record of any contribution is priced above it.
\<close>

lemma price_limit_nonzero_every_tier:
  assumes run: "runTiers f ps0 = (Inr (r1, r2, r3, r4, r5), ps')"
    and limit: "maxPrice f = Some m" "m \<noteq> 0"
  shows "(\<forall>i \<in> set r1 \<union> set r2 \<union> set r3 \<union> set r4 \<union> set r5.
            \<forall>r. price (ps' ! i) = Some r \<longrightarrow> r \<le> of_nat m) \<and>
         preFilterWith f ps0 = (Inr (take 100 (r1 @ r2 @ r3 @ r4 @ r5)), ps') \<and>
         (\<forall>i \<in> set (take 100 (r1 @ r2 @ r3 @ r4 @ r5)).
            \<forall>r. price (ps' ! i) = Some r \<longrightarrow> r \<le> of_nat m)"
proof -
  have fails2: "\<not> price_over (ps' ! i) m" if "\<not> price_fails2 f (ps' ! i)" for i
    using that limit by (rule price_fails2_over)
  have over: "\<not> price_over (ps' ! i) m"
    if "i \<in> set r1 \<union> set r2 \<union> set r3 \<union> set r4 \<union> set r5" for i
  proof -
    have "i \<in> set r1 \<or> i \<in> set r2 \<or> i \<in> set r3 \<or> i \<in> set r4 \<or> i \<in> set r5"
      using that by blast
    moreover have ?thesis if "i \<in> set r1"
    proof -
      have "tier1_pass f (ps' ! i)" using run_r1[OF run that] by blast
      then show ?thesis using limit by (rule tier1_pass_price)
    qed
    moreover have ?thesis if "i \<in> set r2"
      using run_r2[OF run that] tier2_pass_parts(3) fails2 by blast
    moreover have ?thesis if "i \<in> set r3"
      using run_r3[OF run that] tier34_pass_parts(3) fails2 by blast
    moreover have ?thesis if "i \<in> set r4"
      using run_r4[OF run that] tier34_pass_parts(3) fails2 by blast
    moreover have ?thesis if "i \<in> set r5"
      using run_r5[OF run that] tier5_pass_parts(3) fails2 by blast
    ultimately show ?thesis by blast
  qed
  have a: "\<forall>i \<in> set r1 \<union> set r2 \<union> set r3 \<union> set r4 \<union> set r5.
            \<forall>r. price (ps' ! i) = Some r \<longrightarrow> r \<le> of_nat m"
    using over not_price_over by blast
  have sub: "set (take 100 (r1 @ r2 @ r3 @ r4 @ r5)) \<subseteq> set r1 \<union> set r2 \<union> set r3 \<union> set r4 \<union> set r5"
    using set_take_subset[of 100 "r1 @ r2 @ r3 @ r4 @ r5"] by auto
  have b: "\<forall>i \<in> set (take 100 (r1 @ r2 @ r3 @ r4 @ r5)).
            \<forall>r. price (ps' ! i) = Some r \<longrightarrow> r \<le> of_nat m"
    using a sub by blast
  show ?thesis using a b preFilterWith_run[OF run] by blast
qed

text \<open>
  With an age range \<open>[lo, hi]\<close> requested, every record contributed by Tiers 1 to 4
  has an \<^verbatim>\<open>ageRange\<close> array that passed the comparison of the code, in which
  \<^verbatim>\<open>null\<close> counts as 0.
\<close>

lemma age_check_tiers_1_to_4:
  assumes run: "runTiers f ps0 = (Inr (r1, r2, r3, r4, r5), ps')"
    and age: "ageRangeF f = Some (lo, hi)"
    and mem: "i \<in> set r1 \<union> set r2 \<union> set r3 \<union> set r4"
  shows "\<exists>ages. ageRange (ps' ! i) = Some ages \<and>
           num_le (elem ages 0) hi \<and> num_ge (elem ages 1) lo"
proof -
  have "allChecks (ageCheck f (ps' ! i))"
  proof -
    consider "i \<in> set r1" | "i \<in> set r2" | "i \<in> set r3" | "i \<in> set r4"
      using mem by blast
    then show ?thesis
    proof cases
      case 1
      then have "tier1_pass f (ps' ! i)" using run_r1[OF run] by blast
      then show ?thesis using age by (rule tier1_pass_age)
    next
      case 2
      then obtain ef where "tier2_pass f ef (existingIds r1 ps') (ps' ! i)"
        using run_r2[OF run] by blast
      then show ?thesis by (rule tier2_pass_parts(4))
    next
      case 3
      then obtain tf where "tier34_pass f tf (existingIds (r1 @ r2) ps') (ps' ! i)"
        using run_r3[OF run] by blast
      then show ?thesis by (rule tier34_pass_parts(4))
    next
      case 4
      then obtain tf where "tier34_pass f tf (existingIds (r1 @ r2 @ r3) ps') (ps' ! i)"
        using run_r4[OF run] by blast
      then show ?thesis by (rule tier34_pass_parts(4))
    qed
  qed
  then show ?thesis using age by (rule age_check_overlap)
qed


section \<open>Claim C1: the merged output is not empty\<close>




section \<open>Claim C2: the price limit\<close>

text \<open>
  Claim C2 says that with a maximum price set no tier returns a record priced above it.
  \<^verbatim>\<open>extractMaxPrice\<close> captures the digits that follow the pound sign, so the query
  "dragon under (pound)0.99" sets the maximum to 0, a number and not \<^verbatim>\<open>null\<close>. Every
  tier guards its price comparison with \<^verbatim>\<open>if (filters.maxPrice)\<close>, which is false for
  0, so the limit that the code calls a hard constraint is dropped: Tier 1 returns the
  record "Dragon Tales" priced 5. The same happens with the query "under (pound)0".
\<close>

theorem C2_zero_limit_dropped:
  "maxPrice (extractFilters (toLowerCase (''dragon under '' @ [pound] @ ''0.99''))) = Some 0 \<and>
   fst (preFilterProducts (user_says (''dragon under '' @ [pound] @ ''0.99''))
          [item ''a'' (Some ''Dragon Tales'') None (Some 5) None None (Some True)]) = Inr [0] \<and>
   price (snd (preFilterProducts (user_says (''dragon under '' @ [pound] @ ''0.99''))
          [item ''a'' (Some ''Dragon Tales'') None (Some 5) None None (Some True)]) ! 0) = Some 5 \<and>
   tierUsed (snd (preFilterProducts (user_says (''dragon under '' @ [pound] @ ''0.99''))
          [item ''a'' (Some ''Dragon Tales'') None (Some 5) None None (Some True)]) ! 0) = Some 1 \<and>
   (5::rat) > of_nat 0 \<and>
   maxPrice (extractFilters (toLowerCase (''under '' @ [pound] @ ''0''))) = Some 0 \<and>
   fst (preFilterProducts (user_says (''under '' @ [pound] @ ''0''))
          [item ''a'' (Some ''Tales'') None (Some 5) None None (Some True)]) = Inr [0]"
  by code_simp

section \<open>Claim C3: the duration limit after Tier 1\<close>

text \<open>
  Claim C3 says that with a maximum duration set no tier returns a longer record. Only
  Tier 1 compares the runtime; the filters of Tiers 2 to 5 do not read it. The query
  "Dragon under 10 min" sets the maximum to 600 seconds; the record "Dragon Hour" runs
  3600 seconds, is excluded by Tier 1 for that reason, and is selected again by Tier 2 on
  the same keyword. With the query "under 10 min" the record "Long Story" of 3600 seconds
  is returned by Tier 5.
\<close>

theorem C3_runtime_ignored_after_tier1:
  "maxRuntime (extractFilters (toLowerCase ''Dragon under 10 min'')) = Some 600 \<and>
   fst (preFilterProducts (user_says ''Dragon under 10 min'')
          [item ''a'' (Some ''Dragon Hour'') None None (Some 3600) None (Some True)]) = Inr [0] \<and>
   runtime (snd (preFilterProducts (user_says ''Dragon under 10 min'')
          [item ''a'' (Some ''Dragon Hour'') None None (Some 3600) None (Some True)]) ! 0) = Some 3600 \<and>
   tierUsed (snd (preFilterProducts (user_says ''Dragon under 10 min'')
          [item ''a'' (Some ''Dragon Hour'') None None (Some 3600) None (Some True)]) ! 0) = Some 2 \<and>
   fst (preFilterProducts (user_says ''under 10 min'')
          [item ''a'' (Some ''Long Story'') None None (Some 3600) None (Some True)]) = Inr [0] \<and>
   tierUsed (snd (preFilterProducts (user_says ''under 10 min'')
          [item ''a'' (Some ''Long Story'') None None (Some 3600) None (Some True)]) ! 0) = Some 5"
  by code_simp

section \<open>Claim C4: the age check in Tiers 1 to 4\<close>

text \<open>
  Claim C4 says that with an age range requested every record contributed by Tiers 1 to
  4 has an age range overlapping it, a record lacking age data failing the check. The
  code tests \<^verbatim>\<open>product.ageRange\<close> for truthiness only and then compares the two
  elements; \<^verbatim>\<open>null\<close> is compared as 0. The query "for babies" requests the range
  [0, 2]; the record "Baby Rhymes" whose \<^verbatim>\<open>ageRange\<close> is \<^verbatim>\<open>[null, null]\<close> holds no
  age data, passes the check (0 is at most 2 and at least 0) and is returned by Tier 1.
  The same record with no \<^verbatim>\<open>ageRange\<close> at all fails the check and is returned by
  Tier 5 only.
\<close>

theorem C4_null_bounds_pass_age_check:
  "ageRangeF (extractFilters (toLowerCase ''for babies'')) = Some (0, 2) \<and>
   ageCheck (extractFilters (toLowerCase ''for babies''))
     (item ''a'' (Some ''Baby Rhymes'') None None None (Some [None, None]) (Some True)) = [True] \<and>
   fst (preFilterProducts (user_says ''for babies'')
          [item ''a'' (Some ''Baby Rhymes'') None None None (Some [None, None]) (Some True)])
     = Inr [0] \<and>
   ageRange (snd (preFilterProducts (user_says ''for babies'')
          [item ''a'' (Some ''Baby Rhymes'') None None None (Some [None, None]) (Some True)]) ! 0)
     = Some [None, None] \<and>
   tierUsed (snd (preFilterProducts (user_says ''for babies'')
          [item ''a'' (Some ''Baby Rhymes'') None None None (Some [None, None]) (Some True)]) ! 0)
     = Some 1 \<and>
   ageCheck (extractFilters (toLowerCase ''for babies''))
     (item ''a'' (Some ''Baby Rhymes'') None None None None (Some True)) = [False] \<and>
   tierUsed (snd (preFilterProducts (user_says ''for babies'')
          [item ''a'' (Some ''Baby Rhymes'') None None None None (Some True)]) ! 0)
     = Some 5"
  by code_simp

section \<open>Claim C5: a record without title\<close>

text \<open>
  Claim C5 says that no exception leaves the pipeline whatever the catalogue holds. The
  filters read a missing title through a template literal, but
  \<^verbatim>\<open>scoreAndSortProducts\<close> calls \<^verbatim>\<open>product.title.toLowerCase()\<close> on every selected
  record when the query has keywords. A record without title whose blurb matches the
  keyword "dragon" passes the Tier 1 filter, and scoring it raises a \<^verbatim>\<open>TypeError\<close>.
\<close>

theorem C5_missing_title_raises:
  "fst (preFilterProducts (user_says ''dragon'')
          [item ''a'' None (Some ''a dragon tale'') None None None (Some True)]) = Inl TypeError"
  by code_simp

section \<open>Claim C6: what the pipeline writes on the catalogue\<close>

text \<open>
  Claim C6, as stated (no field of any catalogue record changes), fails: the tiers
  return references to the catalogue's own records and assign \<^verbatim>\<open>tierUsed\<close> (and Tier 2
  \<^verbatim>\<open>isExpanded\<close>) on them. After a run with no query the only record of the catalogue
  below carries \<open>tierUsed = 1\<close>.
\<close>

theorem C6_catalog_record_written_counterexample:
  "tierUsed ([item ''a'' (Some ''One'') None None None None (Some True)] ! 0) = None \<and>
   tierUsed (snd (preFilterProducts []
      [item ''a'' (Some ''One'') None None None None (Some True)]) ! 0) = Some 1"
  by code_simp

text \<open>
  Claim C6, as amended: the pipeline writes the annotations \<open>tierUsed\<close> and
  \<open>isExpanded\<close> on the catalogue's own records and nothing else. For every
  conversation and catalogue, the catalogue has the same length after
  \<open>preFilterProducts\<close> as before and every record has the same value in every other
  field, also when the run ends in an error.
\<close>

theorem C6_only_annotations_written:
  "length (snd (preFilterProducts conversationHistory products)) = length products \<and>
   map core (snd (preFilterProducts conversationHistory products)) = map core products"
proof -
  obtain r ps' where e: "preFilterProducts conversationHistory products = (r, ps')"
    by (cases "preFilterProducts conversationHistory products")
  then obtain f where "preFilterWith f products = (r, ps')"
    by (simp add: preFilterProducts_def Let_def)
  then have c: "map core ps' = map core products"
    by (rule preFilterWith_store)
  then have "length ps' = length products" by (rule map_core_length)
  then show ?thesis using e c by simp
qed

theorem C6_only_annotations_written_witness:
  "length (snd (preFilterProducts (user_says shelf_query) shelf)) = length shelf \<and>
   map core (snd (preFilterProducts (user_says shelf_query) shelf)) = map core shelf"
  using C6_only_annotations_written[of "user_says shelf_query" shelf] by simp

section \<open>Claim C7: no identifier twice\<close>

text \<open>
  Claim C7, as stated. The tiers exclude the identifiers selected before them, but nothing
  removes a duplicate inside one tier. So the part of the claim that the final output never holds
  an identifier twice fails on a catalogue in which two records carry the same
  identifier: with no query, Tier 1 returns both.
\<close>

theorem C7_duplicate_ids_counterexample:
  "fst (preFilterProducts []
      [item ''a'' (Some ''One'') None None None None (Some True),
       item ''a'' (Some ''Two'') None None None None (Some True)]) = Inr [0, 1] \<and>
   pid (snd (preFilterProducts []
      [item ''a'' (Some ''One'') None None None None (Some True),
       item ''a'' (Some ''Two'') None None None None (Some True)]) ! 0) =
   pid (snd (preFilterProducts []
      [item ''a'' (Some ''One'') None None None None (Some True),
       item ''a'' (Some ''Two'') None None None None (Some True)]) ! 1)"
  by code_simp

text \<open>
  Claim C7, as amended. For every filter set and catalogue, the identifiers contributed
  by a tier are disjoint from those of all earlier tiers, and the final output is the
  concatenation of the five contributions in tier order, cut to 100. If the identifiers
  of the catalogue are pairwise distinct, the final output holds no identifier twice.
\<close>

theorem C7_tiers_disjoint_and_appended:
  assumes run: "runTiers f ps0 = (Inr (r1, r2, r3, r4, r5), ps')"
  shows "set (existingIds r1 ps') \<inter> set (existingIds r2 ps') = {} \<and>
         set (existingIds (r1 @ r2) ps') \<inter> set (existingIds r3 ps') = {} \<and>
         set (existingIds (r1 @ r2 @ r3) ps') \<inter> set (existingIds r4 ps') = {} \<and>
         set (existingIds (r1 @ r2 @ r3 @ r4) ps') \<inter> set (existingIds r5 ps') = {} \<and>
         preFilterWith f ps0 = (Inr (take 100 (r1 @ r2 @ r3 @ r4 @ r5)), ps') \<and>
         (distinct (map pid ps0) \<longrightarrow>
            distinct (existingIds (take 100 (r1 @ r2 @ r3 @ r4 @ r5)) ps'))"
proof -
  have d2: "set (existingIds r1 ps') \<inter> set (existingIds r2 ps') = {}"
  proof (rule ids_disjoint)
    fix i assume "i \<in> set r2"
    then show "pid (ps' ! i) \<notin> set (existingIds r1 ps')"
      using run_r2[OF run] tier2_pass_parts(1) by blast
  qed
  have d3: "set (existingIds (r1 @ r2) ps') \<inter> set (existingIds r3 ps') = {}"
  proof (rule ids_disjoint)
    fix i assume "i \<in> set r3"
    then show "pid (ps' ! i) \<notin> set (existingIds (r1 @ r2) ps')"
      using run_r3[OF run] tier34_pass_parts(1) by blast
  qed
  have d4: "set (existingIds (r1 @ r2 @ r3) ps') \<inter> set (existingIds r4 ps') = {}"
  proof (rule ids_disjoint)
    fix i assume "i \<in> set r4"
    then show "pid (ps' ! i) \<notin> set (existingIds (r1 @ r2 @ r3) ps')"
      using run_r4[OF run] tier34_pass_parts(1) by blast
  qed
  have d5: "set (existingIds (r1 @ r2 @ r3 @ r4) ps') \<inter> set (existingIds r5 ps') = {}"
  proof (rule ids_disjoint)
    fix i assume "i \<in> set r5"
    then show "pid (ps' ! i) \<notin> set (existingIds (r1 @ r2 @ r3 @ r4) ps')"
      using run_r5[OF run] tier5_pass_parts(1) by blast
  qed
  have dist: "distinct (existingIds (take 100 (r1 @ r2 @ r3 @ r4 @ r5)) ps')"
    if d: "distinct (map pid ps0)"
  proof -
    note c = run_core[OF run]
    note rd = run_distinct[OF run]
    have e1: "distinct (existingIds r1 ps')"
    proof (rule ids_distinct[OF d c])
      show "distinct r1" using rd by simp
      show "\<forall>i\<in>set r1. i < length ps'" using run_r1[OF run] by blast
    qed
    have e2: "distinct (existingIds r2 ps')"
    proof (rule ids_distinct[OF d c])
      show "distinct r2" using rd by simp
      show "\<forall>i\<in>set r2. i < length ps'" using run_r2[OF run] by blast
    qed
    have e3: "distinct (existingIds r3 ps')"
    proof (rule ids_distinct[OF d c])
      show "distinct r3" using rd by simp
      show "\<forall>i\<in>set r3. i < length ps'" using run_r3[OF run] by blast
    qed
    have e4: "distinct (existingIds r4 ps')"
    proof (rule ids_distinct[OF d c])
      show "distinct r4" using rd by simp
      show "\<forall>i\<in>set r4. i < length ps'" using run_r4[OF run] by blast
    qed
    have e5: "distinct (existingIds r5 ps')"
    proof (rule ids_distinct[OF d c])
      show "distinct r5" using rd by simp
      show "\<forall>i\<in>set r5. i < length ps'" using run_r5[OF run] by blast
    qed
    have a2: "distinct (existingIds (r1 @ r2) ps')"
      using e1 e2 d2 by (rule ids_distinct_append)
    have a3: "distinct (existingIds (r1 @ r2 @ r3) ps')"
      using ids_distinct_append[OF a2 e3 d3] by simp
    have a4: "distinct (existingIds (r1 @ r2 @ r3 @ r4) ps')"
      using ids_distinct_append[OF a3 e4 d4] by simp
    have a5: "distinct (existingIds (r1 @ r2 @ r3 @ r4 @ r5) ps')"
      using ids_distinct_append[OF a4 e5 d5] by simp
    then have "distinct (take 100 (existingIds (r1 @ r2 @ r3 @ r4 @ r5) ps'))"
      by (rule distinct_take)
    then show ?thesis by (simp only: existingIds_take)
  qed
  show ?thesis using d2 d3 d4 d5 dist preFilterWith_run[OF run] by blast
qed

theorem C7_tiers_disjoint_and_appended_witness:
  "fst (runTiers shelf_filters shelf) = Inr ([0], [1], [], [], [4, 3]) \<and>
   distinct (map pid shelf) \<and>
   set (existingIds [0] (snd (runTiers shelf_filters shelf))) \<inter>
     set (existingIds [1] (snd (runTiers shelf_filters shelf))) = {} \<and>
   set (existingIds [0, 1] (snd (runTiers shelf_filters shelf))) \<inter>
     set (existingIds [4, 3] (snd (runTiers shelf_filters shelf))) = {} \<and>
   preFilterWith shelf_filters shelf = (Inr [0, 1, 4, 3], snd (runTiers shelf_filters shelf)) \<and>
   distinct (existingIds [0, 1, 4, 3] (snd (runTiers shelf_filters shelf)))"
proof -
  have f: "fst (runTiers shelf_filters shelf) = Inr ([0], [1], [], [], [4, 3])"
    by (rule shelf_run)
  then have run: "runTiers shelf_filters shelf =
      (Inr ([0], [1], [], [], [4, 3]), snd (runTiers shelf_filters shelf))"
    by (metis prod.collapse)
  have d: "distinct (map pid shelf)" by code_simp
  show ?thesis using C7_tiers_disjoint_and_appended[OF run] f d by simp
qed

section \<open>Claim C8: the constraint extractor on the regression query\<close>

text \<open>
  Claim C8. For the query "songs about buses for under 2 year olds" the extractor yields
  the age range [1, 3] (age 2, one year on each side) and no maximum price: the number 2
  is not preceded by a pound sign nor followed by the word "pound(s)", so
  \<open>extractMaxPrice\<close> returns null. The query is lower-cased first, as
  \<open>preFilterProducts\<close> does, and the same holds for the filters that
  \<open>preFilterProducts\<close> builds from it.
\<close>

theorem C8_buses_query_age_not_price:
  "extractAgeRange (toLowerCase ''songs about buses for under 2 year olds'') = Some (1, 3) \<and>
   extractMaxPrice (toLowerCase ''songs about buses for under 2 year olds'') = None \<and>
   ageRangeF (extractFilters (toLowerCase ''songs about buses for under 2 year olds'')) = Some (1, 3) \<and>
   maxPrice (extractFilters (toLowerCase ''songs about buses for under 2 year olds'')) = None"
  by code_simp

section \<open>Claim C9: keyword matching in Tiers 3 and 4\<close>

text \<open>
  Claim C9 says that every tier with a keyword filter matches keywords under the
  plural and "-ies"/"-y" tolerance. Tiers 1 and 2 do; Tiers 3 and 4 test
  \<^verbatim>\<open>searchText.includes(keyword)\<close> only. For the query "princess" the Tier 3 keywords
  include "story"; the record titled "Bedtime Stories" matches "story" under the
  tolerance rule ("stories"), yet the Tier 3 keyword check fails on it, and the record
  reaches the output only through Tier 5.
\<close>

theorem C9_tier3_exact_match_only:
  "''story'' \<in> set (expandKeywordsSemantically [''princess''] 2) \<and>
   matchesKeyword
     (searchText (item ''a'' (Some ''Bedtime Stories'') None None None None (Some True)))
     ''story'' \<and>
   keywordCheckFuzzy (expandKeywordsSemantically [''princess''] 2)
     (item ''a'' (Some ''Bedtime Stories'') None None None None (Some True)) = [True] \<and>
   keywordCheckExact (expandKeywordsSemantically [''princess''] 2)
     (item ''a'' (Some ''Bedtime Stories'') None None None None (Some True)) = [False] \<and>
   fst (preFilterProducts (user_says ''princess'')
      [item ''a'' (Some ''Bedtime Stories'') None None None None (Some True)]) = Inr [0] \<and>
   tierUsed (snd (preFilterProducts (user_says ''princess'')
      [item ''a'' (Some ''Bedtime Stories'') None None None None (Some True)]) ! 0) = Some 5"
  by code_simp

section \<open>Claim C10: a record without availability flag\<close>

text \<open>
  Claim C10. A record whose \<open>availableForSale\<close> is absent is treated by the Tier 1
  filter exactly as an available one (so it passes when the query has no filters), and
  is rejected by the filters of Tiers 2, 3, 4 and 5. On a catalogue in which every record
  lacks the flag, a query for which Tier 1 selects nothing yields the empty output, and
  the catalogue is left unchanged.
\<close>

theorem C10_absent_flag:
  "(availableForSale p = None \<longrightarrow>
      tier1_pass f p = tier1_pass f (p\<lparr>availableForSale := Some True\<rparr>) \<and>
      (\<not> hasFilters f \<longrightarrow> tier1_pass f p) \<and>
      \<not> tier2_pass f ef ids p \<and> \<not> tier34_pass f tf ids p \<and> \<not> tier5_pass f ids p) \<and>
   ((\<forall>q\<in>set ps. availableForSale q = None) \<and> filter_refs (tier1_pass f) ps = [] \<longrightarrow>
      preFilterWith f ps = (Inr [], ps))"
proof (intro conjI impI)
  assume a: "availableForSale p = None"
  show "tier1_pass f p = tier1_pass f (p\<lparr>availableForSale := Some True\<rparr>)"
    using a by (simp add: tier1_pass_def available_irrelevant)
  show "tier1_pass f p" if "\<not> hasFilters f"
    using a that by (simp add: tier1_pass_def)
  show "\<not> tier2_pass f ef ids p" using a by (simp add: tier2_pass_def truthy_bool_def)
  show "\<not> tier34_pass f tf ids p" using a by (simp add: tier34_pass_def truthy_bool_def)
  show "\<not> tier5_pass f ids p" using a by (simp add: tier5_pass_def truthy_bool_def)
next
  assume h: "(\<forall>q\<in>set ps. availableForSale q = None) \<and> filter_refs (tier1_pass f) ps = []"
  have none: "filter_refs P ps = []" if "\<And>q. availableForSale q = None \<Longrightarrow> \<not> P q" for P
  proof -
    have "\<not> P (ps ! i)" if "i < length ps" for i
      using h that \<open>\<And>q. availableForSale q = None \<Longrightarrow> \<not> P q\<close> by simp
    then show ?thesis by (simp add: filter_refs_def filter_empty_conv)
  qed
  have n2: "filter_refs (tier2_pass f ef' ids') ps = []" for ef' ids'
    by (rule none) (simp add: tier2_pass_def truthy_bool_def)
  have n34: "filter_refs (tier34_pass f tf' ids') ps = []" for tf' ids'
    by (rule none) (simp add: tier34_pass_def truthy_bool_def)
  have n5: "filter_refs (tier5_pass f ids') ps = []" for ids'
    by (rule none) (simp add: tier5_pass_def truthy_bool_def)
  have s1: "tier1 f ps = (Inr [], ps)" using h by (simp add: tier1_def)
  have s2: "tier2 f [] ps = (Inr [], ps)" by (simp add: tier2_def Let_def n2)
  have s3: "tier34 level n f [] ps = (Inr [], ps)" for level n
    by (simp add: tier34_def Let_def n34)
  have s5: "tier5 f [] ps = ([], ps)" by (simp add: tier5_def Let_def n5)
  show "preFilterWith f ps = (Inr [], ps)"
    by (simp add: preFilterWith_def runTiers_def tier3_def tier4_def s1 s2 s3 s5)
qed

theorem C10_absent_flag_witness:
  "availableForSale (item ''z'' (Some ''Plain Songs'') None None None None None) = None \<and>
   list_all (\<lambda>q. availableForSale q = None)
     [item ''z'' (Some ''Plain Songs'') None None None None None] \<and>
   filter_refs (tier1_pass (extractFilters ''zebra''))
     [item ''z'' (Some ''Plain Songs'') None None None None None] = [] \<and>
   \<not> tier5_pass (extractFilters ''zebra'') []
       (item ''z'' (Some ''Plain Songs'') None None None None None) \<and>
   preFilterWith (extractFilters ''zebra'')
     [item ''z'' (Some ''Plain Songs'') None None None None None] =
   (Inr [], [item ''z'' (Some ''Plain Songs'') None None None None None])"
proof -
  let ?z = "item ''z'' (Some ''Plain Songs'') None None None None None"
  have a: "availableForSale ?z = None" by (simp add: item_def)
  have b: "\<forall>q\<in>set [?z]. availableForSale q = None" using a by simp
  have l: "list_all (\<lambda>q. availableForSale q = None) [?z]" using a by simp
  have c: "filter_refs (tier1_pass (extractFilters ''zebra'')) [?z] = []" by code_simp
  show ?thesis
    using C10_absent_flag[of ?z "extractFilters ''zebra''" _ "[]" _ "[?z]"] a b l c by blast
qed

end
